theory Spec2Isabelle
  imports Complex_Main "HOL-Library.Char_ord" "HOL-Library.List_Lexorder"
begin

section \<open>Data model of the classification noisy label matrix\<close>

text \<open>
  The module \<^verbatim>\<open>weak_nlp/classification/__init__.py\<close> defines the class \<^verbatim>\<open>CNLM\<close> with the
  methods \<^verbatim>\<open>quality_metrics\<close>, \<^verbatim>\<open>quantity_metrics\<close> and \<^verbatim>\<open>weakly_supervise\<close>. They work on
  pandas tables. A table is modelled by the list of its rows, in row order; a Python
  \<^verbatim>\<open>dict\<close> by an association list in insertion order; a raised exception by \<open>Inl\<close> of
  an \<open>error\<close>. Every method returns its result together with the matrix as the call leaves
  it, so that what was written before an exception stays visible.

  Python floats are modelled by real numbers, extended by the not-a-number value that
  pandas uses for a missing numeric cell. A missing label is \<open>None\<close>.
\<close>

datatype pyfloat = NaN | Val real

record association =
  record_id :: string
  label :: "string option"
  confidence :: pyfloat

text \<open>
  The \<^verbatim>\<open>associations\<close> DataFrame of a source vector has the columns \<^verbatim>\<open>record\<close>,
  \<^verbatim>\<open>label\<close> and \<^verbatim>\<open>confidence\<close>; \<^verbatim>\<open>weakly_supervise\<close> adds a column \<^verbatim>\<open>prediction\<close> to it,
  which is \<open>None\<close> as long as that column does not exist.
\<close>

record dataframe =
  rows :: "association list"
  prediction :: "(string \<times> pyfloat) list option"

record quality_counts =
  true_positives :: nat
  false_positives :: nat

record quantity_counts =
  record_coverage :: nat
  source_overlaps :: nat
  source_conflicts :: nat

record sourcevector =
  "identifier" :: string
  associations :: dataframe
  quality :: "(string \<times> quality_counts) list"
  quantity :: "(string \<times> quantity_counts) list"

record cnlm =
  vectors_noisy :: "sourcevector list"
  vector_reference :: "sourcevector option"
  records :: "string list"

text \<open>
  Modelled from the spec: the attribute \<^verbatim>\<open>is_empty\<close> is set by the base class
  \<^verbatim>\<open>weak_nlp.SourceVector\<close>, which is not part of the module; the specification gives
  "\<^verbatim>\<open>is_empty=true\<close> iff it has zero associations".
\<close>

definition is_empty :: "sourcevector \<Rightarrow> bool" where
  "is_empty v = (rows (associations v) = [])"

text \<open>
  The exceptions of the three methods. The module raises the first two itself, as plain
  \<^verbatim>\<open>Exception\<close>s with the messages "Can't calculate the quality metrics without reference
  vector" and "Empty statistics; can't compute weak supervision". The others are raised
  by the operations it calls: a \<^verbatim>\<open>dict\<close> lookup of a missing key, \<^verbatim>\<open>to_dict(orient="index")\<close>
  on a table whose index is not unique, the assignment of a column whose index has
  duplicates and has to be reindexed, \<^verbatim>\<open>pd.concat\<close> of an empty list, \<^verbatim>\<open>max\<close> of an
  empty \<^verbatim>\<open>dict\<close> and a position outside an array.
\<close>

datatype error =
    MissingReferenceError
  | EmptyStatisticsError
  | KeyError
  | IndexNotUniqueError
  | DuplicateAxisError
  | NoObjectsToConcatenateError
  | EmptyMaxError
  | IndexError

section \<open>Dictionaries and columns\<close>

text \<open>\<^verbatim>\<open>d[k] = v\<close>: an existing key keeps its position, a new key goes to the end.\<close>

definition dict_set :: "'k \<Rightarrow> 'v \<Rightarrow> ('k \<times> 'v) list \<Rightarrow> ('k \<times> 'v) list" where
  "dict_set k v d =
     (if k \<in> set (map fst d)
      then map (\<lambda>(k', v'). if k' = k then (k', v) else (k', v')) d
      else d @ [(k, v)])"

text \<open>\<^verbatim>\<open>d[k]\<close>, which raises \<^verbatim>\<open>KeyError\<close> on a missing key.\<close>

definition dict_get :: "('k \<times> 'v) list \<Rightarrow> 'k \<Rightarrow> error + 'v" where
  "dict_get d k = (case map_of d k of None \<Rightarrow> Inl KeyError | Some v \<Rightarrow> Inr v)"

text \<open>\<^verbatim>\<open>Series.dropna()\<close> and \<^verbatim>\<open>Series.unique()\<close> (the values in order of first appearance).\<close>

fun dropna :: "'a option list \<Rightarrow> 'a list" where
  "dropna [] = []"
| "dropna (None # xs) = dropna xs"
| "dropna (Some x # xs) = x # dropna xs"

definition unique :: "'a list \<Rightarrow> 'a list" where
  "unique xs = rev (remdups (rev xs))"

text \<open>
  The keys that \<^verbatim>\<open>groupby\<close> iterates over: the distinct values of the grouping column
  in sorted order; \<^verbatim>\<open>groupby\<close> leaves the rows with a missing key out, so a column that can
  hold missing values goes through \<open>dropna\<close> first.
\<close>

definition group_keys :: "('a::linorder) list \<Rightarrow> 'a list" where
  "group_keys col = sort (unique col)"

text \<open>A loop whose body can raise stops at the first exception.\<close>

fun fold_err :: "('a \<Rightarrow> 's \<Rightarrow> error + 's) \<Rightarrow> 'a list \<Rightarrow> 's \<Rightarrow> error + 's" where
  "fold_err f [] s = Inr s"
| "fold_err f (x # xs) s = (case f x s of Inl e \<Rightarrow> Inl e | Inr s' \<Rightarrow> fold_err f xs s')"

fun map_err :: "('a \<Rightarrow> error + 'b) \<Rightarrow> 'a list \<Rightarrow> error + 'b list" where
  "map_err f [] = Inr []"
| "map_err f (x # xs) =
     (case f x of
        Inl e \<Rightarrow> Inl e
      | Inr y \<Rightarrow> (case map_err f xs of Inl e \<Rightarrow> Inl e | Inr ys \<Rightarrow> Inr (y # ys)))"

text \<open>
  Float arithmetic with not-a-number: an operation with a \<open>NaN\<close> operand gives \<open>NaN\<close>,
  a comparison with a \<open>NaN\<close> operand is false.
\<close>

fun fadd :: "pyfloat \<Rightarrow> pyfloat \<Rightarrow> pyfloat" where
  "fadd (Val x) (Val y) = Val (x + y)"
| "fadd _ _ = NaN"

fun fsub :: "pyfloat \<Rightarrow> pyfloat \<Rightarrow> pyfloat" where
  "fsub (Val x) (Val y) = Val (x - y)"
| "fsub _ _ = NaN"

fun fmul :: "pyfloat \<Rightarrow> pyfloat \<Rightarrow> pyfloat" where
  "fmul (Val x) (Val y) = Val (x * y)"
| "fmul _ _ = NaN"

fun fgt :: "pyfloat \<Rightarrow> pyfloat \<Rightarrow> bool" where
  "fgt (Val x) (Val y) = (x > y)"
| "fgt _ _ = False"

section \<open>Quality metrics\<close>

text \<open>
  The inner join of the reference table and a noisy table on \<^verbatim>\<open>record\<close>: one row for
  every pair of a reference row and a noisy row with the same record. Only the columns
  \<^verbatim>\<open>label_reference\<close> and \<^verbatim>\<open>label_noisy\<close> of the join are read afterwards.
\<close>

definition inner_join ::
  "association list \<Rightarrow> association list \<Rightarrow> (string option \<times> string option) list" where
  "inner_join df_reference df_noisy =
     concat (map (\<lambda>a. map (\<lambda>b. (label a, label b))
                         (filter (\<lambda>b. record_id b = record_id a) df_noisy))
                 df_reference)"

definition group_quality :: "(string option \<times> string option) list \<Rightarrow> string \<Rightarrow> quality_counts" where
  "group_quality df_inner_join label_name =
     (let df_grouped = filter (\<lambda>(label_reference, label_noisy). label_noisy = Some label_name)
                              df_inner_join;
          num_intersections = length df_grouped;
          tp = length (filter (\<lambda>(label_reference, label_noisy). label_reference = label_noisy)
                              df_grouped);
          fp = num_intersections - tp
      in \<lparr>true_positives = tp, false_positives = fp\<rparr>)"

definition vector_quality ::
  "association list \<Rightarrow> association list \<Rightarrow> (string \<times> quality_counts) list" where
  "vector_quality df_reference df_noisy =
     (let noisy_labels = unique (dropna (map label df_noisy));
          quality0 = fold (\<lambda>label_name. dict_set label_name
                              \<lparr>true_positives = 0, false_positives = 0\<rparr>) noisy_labels [];
          df_inner_join = inner_join df_reference df_noisy
      in fold (\<lambda>label_name. dict_set label_name (group_quality df_inner_join label_name))
              (group_keys (dropna (map snd df_inner_join))) quality0)"

record quality_row =
  row_identifier :: string
  row_label_name :: string
  row_true_positives :: nat
  row_false_positives :: nat
  row_precision :: real

definition calc_precision :: "nat \<Rightarrow> nat \<Rightarrow> real" where
  "calc_precision tp fp =
     (let sum_positives = tp + fp
      in if sum_positives = 0 then 0 else real tp / real sum_positives)"

definition quality_statistics :: "sourcevector list \<Rightarrow> quality_row list" where
  "quality_statistics vs =
     concat (map (\<lambda>vector_noisy.
        map (\<lambda>(label_name, q).
               \<lparr>row_identifier = identifier vector_noisy, row_label_name = label_name,
                row_true_positives = true_positives q,
                row_false_positives = false_positives q,
                row_precision = calc_precision (true_positives q) (false_positives q)\<rparr>)
            (quality vector_noisy)) vs)"

definition write_quality :: "sourcevector \<Rightarrow> sourcevector \<Rightarrow> sourcevector" where
  "write_quality reference vector_noisy =
     (if \<not> is_empty vector_noisy
      then vector_noisy\<lparr>quality := vector_quality (rows (associations reference))
                                                   (rows (associations vector_noisy))\<rparr>
      else vector_noisy)"

definition quality_metrics :: "cnlm \<Rightarrow> (error + quality_row list) \<times> cnlm" where
  "quality_metrics m =
     (case vector_reference m of
        None \<Rightarrow> (Inl MissingReferenceError, m)
      | Some reference \<Rightarrow>
          (let vs = map (write_quality reference) (vectors_noisy m)
           in (Inr (quality_statistics vs), m\<lparr>vectors_noisy := vs\<rparr>)))"

section \<open>Quantity metrics\<close>

text \<open>
  \<^verbatim>\<open>df_concat\<close>: the rows of all noisy vectors, each with the identifier of its vector in
  the column \<^verbatim>\<open>source\<close>. \<^verbatim>\<open>pd.DataFrame(vector.associations)\<close> is taken to build a table of
  its own, so the column \<^verbatim>\<open>source\<close> is not added to the table of the vector.
\<close>

definition df_concat :: "sourcevector list \<Rightarrow> (association \<times> string) list" where
  "df_concat vs =
     concat (map (\<lambda>vector. map (\<lambda>a. (a, identifier vector)) (rows (associations vector))) vs)"

definition bump_overlaps ::
  "string option \<Rightarrow> (string \<times> quantity_counts) list \<Rightarrow> error + (string \<times> quantity_counts) list" where
  "bump_overlaps lbl qmap =
     (case lbl of
        None \<Rightarrow> Inl KeyError
      | Some l \<Rightarrow>
          (case map_of qmap l of
             None \<Rightarrow> Inl KeyError
           | Some q \<Rightarrow> Inr (dict_set l (q\<lparr>source_overlaps := source_overlaps q + 1\<rparr>) qmap)))"

definition bump_conflicts ::
  "string option \<Rightarrow> (string \<times> quantity_counts) list \<Rightarrow> error + (string \<times> quantity_counts) list" where
  "bump_conflicts lbl qmap =
     (case lbl of
        None \<Rightarrow> Inl KeyError
      | Some l \<Rightarrow>
          (case map_of qmap l of
             None \<Rightarrow> Inl KeyError
           | Some q \<Rightarrow> Inr (dict_set l (q\<lparr>source_conflicts := source_conflicts q + 1\<rparr>) qmap)))"

text \<open>
  The body of the loop over the records that other sources share with the source:
  \<^verbatim>\<open>.iloc[0]\<close> takes the first row the source has for the record, \<^verbatim>\<open>labels_unique[0]\<close> the
  first label of the others.
\<close>

definition record_step ::
  "association list \<Rightarrow> association list \<Rightarrow> string \<Rightarrow>
   (string \<times> quantity_counts) list \<Rightarrow> error + (string \<times> quantity_counts) list" where
  "record_step df_source df_others rid qmap =
     (let labels_unique = unique (map label (filter (\<lambda>a. record_id a = rid) df_others))
      in case filter (\<lambda>a. record_id a = rid) df_source of
           [] \<Rightarrow> Inl IndexError
         | row_source # _ \<Rightarrow>
             (let lbl = label row_source
              in case (if lbl \<in> set labels_unique then bump_overlaps lbl qmap
                       else Inr qmap) of
                   Inl e \<Rightarrow> Inl e
                 | Inr qmap1 \<Rightarrow>
                     (if length labels_unique > 1 then bump_conflicts lbl qmap1
                      else case labels_unique of
                             [] \<Rightarrow> Inl IndexError
                           | l0 # _ \<Rightarrow>
                               if l0 \<noteq> lbl then bump_conflicts lbl qmap1
                               else Inr qmap1)))"

definition source_quantity ::
  "(association \<times> string) list \<Rightarrow> string \<Rightarrow> error + (string \<times> quantity_counts) list" where
  "source_quantity dfc source =
     (let df_source = map fst (filter (\<lambda>(a, s). s = source) dfc);
          df_others = map fst (filter (\<lambda>(a, s). s \<noteq> source \<and>
                         record_id a \<in> set (unique (map record_id df_source))) dfc);
          quantity0 = map (\<lambda>l. (l, \<lparr>record_coverage =
                                          length (filter (\<lambda>a. label a = Some l) df_source),
                                       source_overlaps = 0, source_conflicts = 0\<rparr>))
                          (unique (dropna (map label df_source)))
      in fold_err (record_step df_source df_others)
                  (group_keys (map record_id df_others)) quantity0)"

text \<open>
  The loop over the sources. A source whose tally raises ends the call; the vectors
  written for the sources before it keep their new \<^verbatim>\<open>quantity\<close>.
\<close>

fun write_quantities ::
  "(association \<times> string) list \<Rightarrow> string list \<Rightarrow> sourcevector list \<Rightarrow>
   error option \<times> sourcevector list" where
  "write_quantities dfc [] vs = (None, vs)"
| "write_quantities dfc (source # sources) vs =
     (case source_quantity dfc source of
        Inl e \<Rightarrow> (Some e, vs)
      | Inr q \<Rightarrow>
          write_quantities dfc sources
            (map (\<lambda>vector. if identifier vector = source then vector\<lparr>quantity := q\<rparr>
                           else vector) vs))"

record quantity_row =
  qrow_identifier :: string
  qrow_label_name :: string
  qrow_record_coverage :: nat
  qrow_source_conflicts :: nat
  qrow_source_overlaps :: nat

definition quantity_statistics :: "sourcevector list \<Rightarrow> quantity_row list" where
  "quantity_statistics vs =
     concat (map (\<lambda>vector_noisy.
        map (\<lambda>(label_name, q).
               \<lparr>qrow_identifier = identifier vector_noisy, qrow_label_name = label_name,
                qrow_record_coverage = record_coverage q,
                qrow_source_conflicts = source_conflicts q,
                qrow_source_overlaps = source_overlaps q\<rparr>)
            (quantity vector_noisy)) vs)"

definition quantity_metrics :: "cnlm \<Rightarrow> (error + quantity_row list) \<times> cnlm" where
  "quantity_metrics m =
     (if vectors_noisy m = [] then (Inl NoObjectsToConcatenateError, m)
      else
        (let dfc = df_concat (vectors_noisy m)
         in case write_quantities dfc (group_keys (map snd dfc)) (vectors_noisy m) of
              (Some e, vs) \<Rightarrow> (Inl e, m\<lparr>vectors_noisy := vs\<rparr>)
            | (None, vs) \<Rightarrow> (Inr (quantity_statistics vs), m\<lparr>vectors_noisy := vs\<rparr>)))"

section \<open>Weak supervision\<close>

text \<open>
  \<^verbatim>\<open>stats_lkp\<close>: the precision of every pair of a source identifier and a label, read
  from the table of the quality metrics. \<^verbatim>\<open>to_dict(orient="index")\<close> raises when two rows of
  the table have the same pair.
\<close>

definition stats_lkp :: "quality_row list \<Rightarrow> error + ((string \<times> string) \<times> real) list" where
  "stats_lkp stats_df =
     (if distinct (map (\<lambda>r. (row_identifier r, row_label_name r)) stats_df)
      then Inr (map (\<lambda>r. ((row_identifier r, row_label_name r), row_precision r)) stats_df)
      else Inl IndexNotUniqueError)"

text \<open>
  The function applied to every row \<^verbatim>\<open>x\<close> of a vector: the pair of the label and the
  precision of the source for that label times the confidence of the row. The lookup
  raises for a pair that is not in \<^verbatim>\<open>stats_lkp\<close>, as for a missing label.
\<close>

definition predict ::
  "((string \<times> string) \<times> real) list \<Rightarrow> string \<Rightarrow> association \<Rightarrow> error + (string \<times> pyfloat)" where
  "predict lkp ident x =
     (case label x of
        None \<Rightarrow> Inl KeyError
      | Some l \<Rightarrow>
          (case map_of lkp (ident, l) of
             None \<Rightarrow> Inl KeyError
           | Some precision \<Rightarrow> Inr (l, fmul (Val precision) (confidence x))))"

text \<open>
  \<^verbatim>\<open>cnlm_df\<close> is modelled by its rows: the record of the index and the cells of the row,
  one for every column, named by the identifier of a source. A cell holds a prediction or
  is missing (\<open>None\<close>, which \<^verbatim>\<open>fillna\<close> turns into \<^verbatim>\<open>"-"\<close>).

  \<^verbatim>\<open>cnlm_df[name] = series\<close> aligns the series with the index of the table: a table
  without rows takes the index of the series; a series with the very index of the table
  is taken as it is; any other series is reindexed, which raises when its index has
  duplicates, and leaves a record it does not hold with a missing cell.
\<close>

type_synonym cell = "(string \<times> pyfloat) option"

definition set_column ::
  "string \<Rightarrow> (string \<times> (string \<times> pyfloat)) list \<Rightarrow> (string \<times> (string \<times> cell) list) list \<Rightarrow>
   error + (string \<times> (string \<times> cell) list) list" where
  "set_column name series df =
     (if df = [] then Inr (map (\<lambda>(r, p). (r, [(name, Some p)])) series)
      else if map fst series = map fst df
      then Inr (map (\<lambda>((r, row), (r', p)). (r, dict_set name (Some p) row)) (zip df series))
      else if \<not> distinct (map fst series) then Inl DuplicateAxisError
      else Inr (map (\<lambda>(r, row). (r, dict_set name (map_of series r) row)) df))"

text \<open>
  The loop over the noisy vectors. \<^verbatim>\<open>vector_df\<close> is the table of the vector itself, not
  a copy of it, so the column \<^verbatim>\<open>prediction\<close> is written into the vector.
\<close>

fun collect_predictions ::
  "((string \<times> string) \<times> real) list \<Rightarrow> sourcevector list \<Rightarrow> (string \<times> (string \<times> cell) list) list \<Rightarrow>
   sourcevector list \<times> (error + (string \<times> (string \<times> cell) list) list)" where
  "collect_predictions lkp [] cnlm_df = ([], Inr cnlm_df)"
| "collect_predictions lkp (vector # vs) cnlm_df =
     (let vector_df = rows (associations vector)
      in if length vector_df > 0
         then (case map_err (predict lkp (identifier vector)) vector_df of
                 Inl e \<Rightarrow> (vector # vs, Inl e)
               | Inr preds \<Rightarrow>
                   (let vector' = vector\<lparr>associations :=
                                    (associations vector)\<lparr>prediction := Some preds\<rparr>\<rparr>;
                        vector_series = zip (map record_id vector_df) preds
                    in case set_column (identifier vector) vector_series cnlm_df of
                         Inl e \<Rightarrow> (vector' # vs, Inl e)
                       | Inr cnlm_df' \<Rightarrow>
                           (case collect_predictions lkp vs cnlm_df' of
                              (vs', res) \<Rightarrow> (vector' # vs', res))))
         else (case collect_predictions lkp vs cnlm_df of
                 (vs', res) \<Rightarrow> (vector # vs', res)))"

text \<open>
  \<^verbatim>\<open>sigmoid\<close> with its defaults \<^verbatim>\<open>c = 1\<close> and \<^verbatim>\<open>k = 1\<close> as parameters. The program computes it
  in 64-bit floats: its result is the value of the real function below up to the rounding
  of the operations, and reaches \<open>1\<close> for a large argument, which the real function does
  not.
\<close>

definition sigmoid :: "real \<Rightarrow> real \<Rightarrow> real \<Rightarrow> real" where
  "sigmoid x c k = 1 / (1 + exp (- c * x + k))"

text \<open>
  \<^verbatim>\<open>voters\<close> is a \<^verbatim>\<open>defaultdict(float)\<close>: a label that has no entry yet starts from \<open>0\<close>.
\<close>

definition add_vote :: "string \<Rightarrow> pyfloat \<Rightarrow> (string \<times> pyfloat) list \<Rightarrow> (string \<times> pyfloat) list" where
  "add_vote label_name conf voters =
     dict_set label_name
       (fadd (case map_of voters label_name of None \<Rightarrow> Val 0 | Some v \<Rightarrow> v) conf) voters"

definition tally :: "(string \<times> cell) list \<Rightarrow> (string \<times> pyfloat) list" where
  "tally row =
     fold (\<lambda>(column, pair_or_empty) voters.
             case pair_or_empty of
               None \<Rightarrow> voters
             | Some (label_name, conf) \<Rightarrow> add_vote label_name conf voters) row []"

text \<open>
  \<^verbatim>\<open>max(voters, key=voters.get)\<close>: the first key whose value no later value exceeds; an
  empty \<^verbatim>\<open>dict\<close> raises.
\<close>

fun max_voter :: "(string \<times> pyfloat) list \<Rightarrow> error + string" where
  "max_voter [] = Inl EmptyMaxError"
| "max_voter ((k, v) # rest) =
     Inr (fst (fold (\<lambda>(k', v') (kb, vb). if fgt v' vb then (k', v') else (kb, vb)) rest (k, v)))"

definition sum_votes :: "(string \<times> pyfloat) list \<Rightarrow> pyfloat" where
  "sum_votes voters = fold (\<lambda>v acc. fadd acc v) (map snd voters) (Val 0)"

text \<open>
  The margin of a tally for its winner: \<^verbatim>\<open>max_vote - (sum_votes - max_vote)\<close>.
\<close>

definition margin :: "(string \<times> pyfloat) list \<Rightarrow> string \<Rightarrow> pyfloat" where
  "margin voters winner =
     (let max_vote = (case map_of voters winner of None \<Rightarrow> Val 0 | Some v \<Rightarrow> v)
      in fsub max_vote (fsub (sum_votes voters) max_vote))"

text \<open>
  \<^verbatim>\<open>ensemble\<close> returns the pair of the winner and the sigmoid of the margin when the
  margin is positive, and falls off its end otherwise, which returns \<^verbatim>\<open>None\<close>.
\<close>

definition ensemble :: "(string \<times> cell) list \<Rightarrow> error + (string \<times> real) option" where
  "ensemble row =
     (let voters = tally row
      in case max_voter voters of
           Inl e \<Rightarrow> Inl e
         | Inr winner \<Rightarrow>
             (case margin voters winner of
                NaN \<Rightarrow> Inr None
              | Val conf \<Rightarrow> if conf > 0 then Inr (Some (winner, sigmoid conf 1 1)) else Inr None))"

text \<open>
  The rows that hold at least one prediction:
  \<^verbatim>\<open>cnlm_df.loc[~(cnlm_df.isnull()).all(axis=1)]\<close>.
\<close>

definition voted_rows :: "(string \<times> (string \<times> cell) list) list \<Rightarrow> (string \<times> (string \<times> cell) list) list" where
  "voted_rows cnlm_df = filter (\<lambda>(r, row). \<not> list_all (\<lambda>(column, c). c = None) row) cnlm_df"

text \<open>
  The vote table of a matrix whose quality table is \<open>stats_df\<close>, with the vectors as the
  loop leaves them.
\<close>

definition vote_table ::
  "quality_row list \<Rightarrow> cnlm \<Rightarrow> sourcevector list \<times> (error + (string \<times> (string \<times> cell) list) list)" where
  "vote_table stats_df m =
     (case stats_lkp stats_df of
        Inl e \<Rightarrow> (vectors_noisy m, Inl e)
      | Inr lkp \<Rightarrow>
          collect_predictions lkp (vectors_noisy m) (map (\<lambda>r. (r, [])) (records m)))"

text \<open>
  \<^verbatim>\<open>weakly_supervise\<close> returns the series \<^verbatim>\<open>cnlm_df.apply(ensemble, axis=1)\<close>: one entry for
  every row of the table, with what \<^verbatim>\<open>ensemble\<close> returned for it.
\<close>

definition weakly_supervise :: "cnlm \<Rightarrow> (error + (string \<times> (string \<times> real) option) list) \<times> cnlm" where
  "weakly_supervise m =
     (case quality_metrics m of
        (Inl e, m1) \<Rightarrow> (Inl e, m1)
      | (Inr stats_df, m1) \<Rightarrow>
          if length stats_df = 0 then (Inl EmptyStatisticsError, m1)
          else (case vote_table stats_df m1 of
                  (vs, Inl e) \<Rightarrow> (Inl e, m1\<lparr>vectors_noisy := vs\<rparr>)
                | (vs, Inr cnlm_df) \<Rightarrow>
                    (case map_err (\<lambda>(r, row). case ensemble row of
                                                   Inl e \<Rightarrow> Inl e
                                                 | Inr res \<Rightarrow> Inr (r, res))
                                  (voted_rows cnlm_df) of
                       Inl e \<Rightarrow> (Inl e, m1\<lparr>vectors_noisy := vs\<rparr>)
                     | Inr out \<Rightarrow> (Inr out, m1\<lparr>vectors_noisy := vs\<rparr>))))"

section \<open>Notions used in the statements\<close>

text \<open>
  The rows of a source in \<^verbatim>\<open>df_concat\<close> (\<^verbatim>\<open>df_source\<close>), the first row a table holds for
  a record, and the records of a source that a row of another source names as well
  (the column \<^verbatim>\<open>record\<close> of \<^verbatim>\<open>df_others\<close>).
\<close>

definition source_rows :: "sourcevector list \<Rightarrow> string \<Rightarrow> association list" where
  "source_rows vs s = map fst (filter (\<lambda>(a, src). src = s) (df_concat vs))"

definition first_row :: "association list \<Rightarrow> string \<Rightarrow> association option" where
  "first_row df rid = (case filter (\<lambda>a. record_id a = rid) df of [] \<Rightarrow> None | a # _ \<Rightarrow> Some a)"

definition shared_records :: "sourcevector list \<Rightarrow> string \<Rightarrow> string list" where
  "shared_records vs s =
     map (\<lambda>(a, src). record_id a)
         (filter (\<lambda>(a, src). src \<noteq> s \<and> record_id a \<in> set (map record_id (source_rows vs s)))
                 (df_concat vs))"

text \<open>The bound on the counters of one label of a \<^verbatim>\<open>quantity\<close> map.\<close>

definition within_coverage :: "quantity_counts \<Rightarrow> bool" where
  "within_coverage c = (source_overlaps c \<le> record_coverage c \<and> source_conflicts c \<le> record_coverage c)"

text \<open>
  The rows of the vote table that \<^verbatim>\<open>weakly_supervise\<close> hands to \<^verbatim>\<open>ensemble\<close>: the records
  with at least one vote, each with its cells.
\<close>

definition vote_rows :: "cnlm \<Rightarrow> (string \<times> (string \<times> cell) list) list" where
  "vote_rows m =
     (case quality_metrics m of
        (Inl e, m1) \<Rightarrow> []
      | (Inr stats_df, m1) \<Rightarrow>
          (case snd (vote_table stats_df m1) of
             Inl e \<Rightarrow> []
           | Inr cnlm_df \<Rightarrow> voted_rows cnlm_df))"

section \<open>Auxiliary definitions for the proofs\<close>

text \<open>
  What one pass of the loop over the records may add to the counters, the number of
  records whose first row carries a label, and the vectors after the loop over the
  sources wrote the sources in \<open>S\<close>.
\<close>

definition step_bound ::
  "association list \<Rightarrow> string \<Rightarrow> (string \<Rightarrow> quantity_counts) \<Rightarrow> (string \<Rightarrow> quantity_counts) \<Rightarrow> bool" where
  "step_bound df_source rid f f' =
     (\<forall>l. record_coverage (f' l) = record_coverage (f l) \<and>
          source_overlaps (f' l) \<le> source_overlaps (f l) +
             (if \<exists>a. first_row df_source rid = Some a \<and> label a = Some l then 1 else 0) \<and>
          source_conflicts (f' l) \<le> source_conflicts (f l) +
             (if \<exists>a. first_row df_source rid = Some a \<and> label a = Some l then 1 else 0))"

definition first_count :: "association list \<Rightarrow> string list \<Rightarrow> string \<Rightarrow> nat" where
  "first_count df_source rids l =
     length (filter (\<lambda>rid. \<exists>a. first_row df_source rid = Some a \<and> label a = Some l) rids)"

definition written_quantity :: "(association \<times> string) list \<Rightarrow> string \<Rightarrow> (string \<times> quantity_counts) list" where
  "written_quantity dfc s = (case source_quantity dfc s of Inl e \<Rightarrow> [] | Inr q \<Rightarrow> q)"

definition put_quantity :: "(association \<times> string) list \<Rightarrow> string set \<Rightarrow> sourcevector \<Rightarrow> sourcevector" where
  "put_quantity dfc S v =
     (if identifier v \<in> S then v\<lparr>quantity := written_quantity dfc (identifier v)\<rparr> else v)"

section \<open>Example matrices\<close>

text \<open>
  A source vector as it is before any of the three methods ran: no \<^verbatim>\<open>prediction\<close> column,
  empty \<^verbatim>\<open>quality\<close> and \<^verbatim>\<open>quantity\<close>.
\<close>

definition assoc :: "string \<Rightarrow> string option \<Rightarrow> pyfloat \<Rightarrow> association" where
  "assoc r l c = \<lparr>record_id = r, label = l, confidence = c\<rparr>"

definition fresh_vector :: "string \<Rightarrow> association list \<Rightarrow> sourcevector" where
  "fresh_vector ident as =
     \<lparr>identifier = ident, associations = \<lparr>rows = as, prediction = None\<rparr>,
      quality = [], quantity = []\<rparr>"

text \<open>One source that agrees with the reference on the only record.\<close>

definition example_single :: cnlm where
  "example_single =
     \<lparr>vectors_noisy = [fresh_vector ''s1'' [assoc ''R1'' (Some ''spam'') (Val 1)]],
      vector_reference = Some (fresh_vector ''ref'' [assoc ''R1'' (Some ''spam'') (Val 1)]),
      records = [''R1'']\<rparr>"

text \<open>The same matrix without a reference vector.\<close>

definition example_no_reference :: cnlm where
  "example_no_reference = example_single\<lparr>vector_reference := None\<rparr>"

text \<open>Two sources that label the same record differently.\<close>

definition example_two_sources :: cnlm where
  "example_two_sources =
     \<lparr>vectors_noisy = [fresh_vector ''s1'' [assoc ''R1'' (Some ''a'') (Val 1)],
                       fresh_vector ''s2'' [assoc ''R1'' (Some ''b'') (Val 1)]],
      vector_reference = Some (fresh_vector ''ref'' [assoc ''R1'' (Some ''a'') (Val 1)]),
      records = [''R1'']\<rparr>"

text \<open>The same, with a missing label in the row of the first source.\<close>

definition example_null_label :: cnlm where
  "example_null_label =
     \<lparr>vectors_noisy = [fresh_vector ''s1'' [assoc ''R1'' None (Val 1)],
                       fresh_vector ''s2'' [assoc ''R1'' (Some ''b'') (Val 1)]],
      vector_reference = Some (fresh_vector ''ref'' [assoc ''R1'' (Some ''a'') (Val 1)]),
      records = [''R1'']\<rparr>"

text \<open>A source with a label on a record that the reference does not hold.\<close>

definition example_no_overlap :: cnlm where
  "example_no_overlap =
     \<lparr>vectors_noisy = [fresh_vector ''s1'' [assoc ''R1'' (Some ''a'') (Val 1),
                                           assoc ''R2'' (Some ''b'') (Val 1)]],
      vector_reference = Some (fresh_vector ''ref'' [assoc ''R1'' (Some ''a'') (Val 1)]),
      records = [''R1'', ''R2'']\<rparr>"

text \<open>
  Two sources of precision \<open>1\<close> that disagree on a record the reference does not hold.
\<close>

definition example_tie :: cnlm where
  "example_tie =
     \<lparr>vectors_noisy = [fresh_vector ''s1'' [assoc ''R1'' (Some ''a'') (Val 1),
                                           assoc ''R3'' (Some ''a'') (Val 1)],
                       fresh_vector ''s2'' [assoc ''R2'' (Some ''b'') (Val 1),
                                           assoc ''R3'' (Some ''b'') (Val 1)]],
      vector_reference = Some (fresh_vector ''ref'' [assoc ''R1'' (Some ''a'') (Val 1),
                                                    assoc ''R2'' (Some ''b'') (Val 1)]),
      records = [''R1'', ''R2'', ''R3'']\<rparr>"

text \<open>One source whose only row has no confidence.\<close>

definition example_null_confidence :: cnlm where
  "example_null_confidence =
     \<lparr>vectors_noisy = [fresh_vector ''s1'' [assoc ''R1'' (Some ''spam'') NaN]],
      vector_reference = Some (fresh_vector ''ref'' [assoc ''R1'' (Some ''spam'') (Val 1)]),
      records = [''R1'']\<rparr>"

text \<open>One source with two labels for the same record.\<close>

definition example_multi_label :: cnlm where
  "example_multi_label =
     \<lparr>vectors_noisy = [fresh_vector ''s1'' [assoc ''R1'' (Some ''a'') (Val 1),
                                           assoc ''R1'' (Some ''b'') (Val 1)]],
      vector_reference = Some (fresh_vector ''ref'' [assoc ''R1'' (Some ''a'') (Val 1)]),
      records = [''R1'']\<rparr>"

section \<open>Facts about the helpers\<close>

lemma set_unique [simp]: "set (unique xs) = set xs"
  by (simp add: unique_def)

lemma distinct_unique [simp]: "distinct (unique xs)"
  by (simp add: unique_def)

lemma set_dropna [simp]: "set (dropna xs) = {x. Some x \<in> set xs}"
  by (induction xs rule: dropna.induct) auto

lemma set_group_keys [simp]: "set (group_keys xs) = set xs"
  by (simp add: group_keys_def)

lemma distinct_group_keys [simp]: "distinct (group_keys xs)"
  by (simp add: group_keys_def)

lemma dict_set_fresh: "k \<notin> fst ` set d \<Longrightarrow> dict_set k v d = d @ [(k, v)]"
  by (simp add: dict_set_def)

lemma fold_dict_set_fresh:
  "distinct ks \<Longrightarrow> set ks \<inter> fst ` set d = {} \<Longrightarrow>
   fold (\<lambda>k. dict_set k (f k)) ks d = d @ map (\<lambda>k. (k, f k)) ks"
proof (induction ks arbitrary: d)
  case Nil
  then show ?case by simp
next
  case (Cons k ks)
  have fresh: "k \<notin> fst ` set d" using Cons.prems by auto
  have "set ks \<inter> fst ` set (d @ [(k, f k)]) = {}" using Cons.prems by auto
  with Cons have "fold (\<lambda>k. dict_set k (f k)) ks (d @ [(k, f k)]) =
                  (d @ [(k, f k)]) @ map (\<lambda>k. (k, f k)) ks"
    by simp
  then show ?case by (simp add: dict_set_fresh [OF fresh])
qed

lemma dict_set_map:
  "k \<in> set ks \<Longrightarrow>
   dict_set k v (map (\<lambda>k'. (k', g k')) ks) = map (\<lambda>k'. (k', (g(k := v)) k')) ks"
  by (auto simp: dict_set_def image_iff)

lemma fold_dict_set_map:
  "set gs \<subseteq> set ks \<Longrightarrow>
   fold (\<lambda>k. dict_set k (f k)) gs (map (\<lambda>k. (k, g k)) ks) =
   map (\<lambda>k. (k, if k \<in> set gs then f k else g k)) ks"
proof (induction gs arbitrary: g)
  case Nil
  then show ?case by simp
next
  case (Cons a gs)
  have a: "a \<in> set ks" and sub: "set gs \<subseteq> set ks" using Cons.prems by auto
  show ?case
    by (simp add: dict_set_map [OF a] Cons.IH [OF sub])
qed

section \<open>Evaluating the examples\<close>

lemmas example_defs = example_single_def example_no_reference_def example_two_sources_def
  example_null_label_def example_no_overlap_def example_tie_def example_null_confidence_def
  example_multi_label_def fresh_vector_def assoc_def

lemmas quality_defs = quality_metrics_def write_quality_def is_empty_def vector_quality_def
  unique_def inner_join_def group_keys_def group_quality_def dict_set_def
  quality_statistics_def calc_precision_def

lemmas supervise_defs = weakly_supervise_def vote_rows_def vote_table_def stats_lkp_def
  predict_def set_column_def voted_rows_def ensemble_def tally_def add_vote_def margin_def
  sum_votes_def sigmoid_def

lemmas quantity_defs = quantity_metrics_def df_concat_def group_keys_def unique_def
  source_quantity_def record_step_def bump_overlaps_def bump_conflicts_def dict_set_def
  quantity_statistics_def source_rows_def shared_records_def first_row_def is_empty_def
  within_coverage_def

section \<open>Quality metrics: the counts of a vector\<close>

lemma group_quality_absent:
  "Some l \<notin> snd ` set j \<Longrightarrow> group_quality j l = \<lparr>true_positives = 0, false_positives = 0\<rparr>"
proof -
  assume "Some l \<notin> snd ` set j"
  then have "filter (\<lambda>(label_reference, label_noisy). label_noisy = Some l) j = []"
    by (force simp: filter_empty_conv)
  then show ?thesis by (simp add: group_quality_def)
qed

text \<open>
  The two loops of \<^verbatim>\<open>quality_metrics\<close> over the labels leave one entry for every label of
  the vector, in the order of first appearance, with the counts of its group in the join.
\<close>

lemma vector_quality_eq:
  "vector_quality df_reference df_noisy =
     map (\<lambda>l. (l, group_quality (inner_join df_reference df_noisy) l))
         (unique (dropna (map label df_noisy)))"
proof -
  let ?j = "inner_join df_reference df_noisy"
  let ?ks = "unique (dropna (map label df_noisy))"
  let ?gs = "group_keys (dropna (map snd ?j))"
  let ?z = "\<lparr>true_positives = 0, false_positives = 0\<rparr>"
  have q0: "fold (\<lambda>label_name. dict_set label_name ?z) ?ks [] = map (\<lambda>k. (k, ?z)) ?ks"
    using fold_dict_set_fresh [of ?ks "[]" "\<lambda>_. ?z"] by simp
  have sub: "set ?gs \<subseteq> set ?ks"
    by (auto simp: inner_join_def)
  have "fold (\<lambda>k. dict_set k (group_quality ?j k)) ?gs (map (\<lambda>k. (k, ?z)) ?ks) =
        map (\<lambda>k. (k, if k \<in> set ?gs then group_quality ?j k else ?z)) ?ks"
    by (rule fold_dict_set_map [OF sub])
  also have "\<dots> = map (\<lambda>k. (k, group_quality ?j k)) ?ks"
    by (rule map_cong) (auto simp: group_quality_absent image_iff)
  finally show ?thesis
    by (simp add: vector_quality_def q0 Let_def)
qed

lemma write_quality_idem: "write_quality r (write_quality r v) = write_quality r v"
  by (simp add: write_quality_def is_empty_def)

lemma write_quality_idem_comp: "write_quality r \<circ> write_quality r = write_quality r"
  by (rule ext) (simp add: write_quality_idem)

section \<open>The precision of a row\<close>

lemma calc_precision_eq:
  "calc_precision tp fp = (if tp + fp = 0 then 0 else real tp / real (tp + fp))"
  by (simp add: calc_precision_def Let_def)

lemma quality_statistics_precision:
  assumes "row \<in> set (quality_statistics vs)"
  shows "row_precision row = calc_precision (row_true_positives row) (row_false_positives row)"
  using assms by (auto simp: quality_statistics_def)

lemma quality_statistics_row:
  assumes "v \<in> set vs" and "(l, q) \<in> set (quality v)"
  shows "\<lparr>row_identifier = identifier v, row_label_name = l,
          row_true_positives = true_positives q, row_false_positives = false_positives q,
          row_precision = calc_precision (true_positives q) (false_positives q)\<rparr>
         \<in> set (quality_statistics vs)"
  using assms by (force simp: quality_statistics_def)

lemma inner_join_no_overlap:
  assumes "\<forall>a\<in>set df_noisy. label a = Some l \<longrightarrow> record_id a \<notin> record_id ` set df_reference"
  shows "Some l \<notin> snd ` set (inner_join df_reference df_noisy)"
proof
  assume "Some l \<in> snd ` set (inner_join df_reference df_noisy)"
  then obtain a b where "a \<in> set df_reference" "b \<in> set df_noisy"
    "record_id b = record_id a" "label b = Some l"
    by (auto simp: inner_join_def)
  with assms show False by (metis imageI)
qed

text \<open>
  Claim C8. Every row of the table of \<^verbatim>\<open>quality_metrics\<close> has the precision
  \<^verbatim>\<open>true_positives / (true_positives + false_positives)\<close>, and \<open>0\<close> where that sum is \<open>0\<close>;
  a label of a source none of whose records with that label is in the reference has a row
  with both counts and the precision \<open>0\<close>.
\<close>

theorem quality_metrics_precision:
  assumes "vector_reference m = Some reference"
    and "fst (quality_metrics m) = Inr stats_df"
  shows "(\<forall>row\<in>set stats_df.
            row_precision row =
              (if row_true_positives row + row_false_positives row = 0 then 0
               else real (row_true_positives row) /
                    real (row_true_positives row + row_false_positives row))) \<and>
         (\<forall>v\<in>set (vectors_noisy m). \<forall>l.
            Some l \<in> label ` set (rows (associations v)) \<and>
            (\<forall>a\<in>set (rows (associations v)).
               label a = Some l \<longrightarrow>
               record_id a \<notin> record_id ` set (rows (associations reference))) \<longrightarrow>
            \<lparr>row_identifier = identifier v, row_label_name = l, row_true_positives = 0,
             row_false_positives = 0, row_precision = 0\<rparr> \<in> set stats_df)"
proof (intro conjI ballI allI impI)
  let ?vs = "map (write_quality reference) (vectors_noisy m)"
  from assms have st: "stats_df = quality_statistics ?vs"
    by (simp add: quality_metrics_def Let_def)
  {
    fix row assume "row \<in> set stats_df"
    then show "row_precision row =
              (if row_true_positives row + row_false_positives row = 0 then 0
               else real (row_true_positives row) /
                    real (row_true_positives row + row_false_positives row))"
      unfolding st by (simp only: quality_statistics_precision calc_precision_eq)
  }
  {
    fix v l
    assume v: "v \<in> set (vectors_noisy m)"
      and h: "Some l \<in> label ` set (rows (associations v)) \<and>
            (\<forall>a\<in>set (rows (associations v)).
               label a = Some l \<longrightarrow>
               record_id a \<notin> record_id ` set (rows (associations reference)))"
    let ?R = "rows (associations reference)" and ?N = "rows (associations v)"
    from h have ne: "\<not> is_empty v" by (auto simp: is_empty_def)
    then have q: "quality (write_quality reference v) = vector_quality ?R ?N"
      by (simp add: write_quality_def)
    have id: "identifier (write_quality reference v) = identifier v"
      by (simp add: write_quality_def)
    from h have "Some l \<notin> snd ` set (inner_join ?R ?N)"
      by (intro inner_join_no_overlap) blast
    then have z: "group_quality (inner_join ?R ?N) l = \<lparr>true_positives = 0, false_positives = 0\<rparr>"
      by (rule group_quality_absent)
    from h have "l \<in> set (unique (dropna (map label ?N)))" by simp
    then have "(l, \<lparr>true_positives = 0, false_positives = 0\<rparr>) \<in> set (vector_quality ?R ?N)"
      unfolding vector_quality_eq using z by force
    with q have mem: "(l, \<lparr>true_positives = 0, false_positives = 0\<rparr>) \<in> set (quality (write_quality reference v))"
      by simp
    from v have "write_quality reference v \<in> set ?vs" by simp
    from quality_statistics_row [OF this mem]
    show "\<lparr>row_identifier = identifier v, row_label_name = l, row_true_positives = 0,
             row_false_positives = 0, row_precision = 0\<rparr> \<in> set stats_df"
      unfolding st by (simp add: id calc_precision_def)
  }
qed

theorem quality_metrics_precision_witness:
  "vector_reference example_no_overlap = Some (fresh_vector ''ref'' [assoc ''R1'' (Some ''a'') (Val 1)]) \<and>
   fst (quality_metrics example_no_overlap) =
     Inr [\<lparr>row_identifier = ''s1'', row_label_name = ''a'', row_true_positives = 1,
            row_false_positives = 0, row_precision = 1\<rparr>,
          \<lparr>row_identifier = ''s1'', row_label_name = ''b'', row_true_positives = 0,
            row_false_positives = 0, row_precision = 0\<rparr>] \<and>
   list_all (\<lambda>row. row_precision row =
              (if row_true_positives row + row_false_positives row = 0 then 0
               else real (row_true_positives row) /
                    real (row_true_positives row + row_false_positives row)))
     [\<lparr>row_identifier = ''s1'', row_label_name = ''a'', row_true_positives = 1,
            row_false_positives = 0, row_precision = 1\<rparr>,
          \<lparr>row_identifier = ''s1'', row_label_name = ''b'', row_true_positives = 0,
            row_false_positives = 0, row_precision = 0\<rparr>] \<and>
   Some ''b'' \<in> label ` set [assoc ''R1'' (Some ''a'') (Val 1), assoc ''R2'' (Some ''b'') (Val 1)] \<and>
   list_all (\<lambda>a. record_id a \<notin> record_id ` set [assoc ''R1'' (Some ''a'') (Val 1)])
     (filter (\<lambda>a. label a = Some ''b'')
        [assoc ''R1'' (Some ''a'') (Val 1), assoc ''R2'' (Some ''b'') (Val 1)]) \<and>
   \<lparr>row_identifier = ''s1'', row_label_name = ''b'', row_true_positives = 0,
    row_false_positives = 0, row_precision = 0\<rparr>
     \<in> set [\<lparr>row_identifier = ''s1'', row_label_name = ''a'', row_true_positives = 1,
               row_false_positives = 0, row_precision = 1\<rparr>,
             \<lparr>row_identifier = ''s1'', row_label_name = ''b'', row_true_positives = 0,
               row_false_positives = 0, row_precision = 0\<rparr>]"
proof -
  have r: "vector_reference example_no_overlap = Some (fresh_vector ''ref'' [assoc ''R1'' (Some ''a'') (Val 1)])"
    by (simp add: example_defs)
  have f: "fst (quality_metrics example_no_overlap) =
     Inr [\<lparr>row_identifier = ''s1'', row_label_name = ''a'', row_true_positives = 1,
            row_false_positives = 0, row_precision = 1\<rparr>,
          \<lparr>row_identifier = ''s1'', row_label_name = ''b'', row_true_positives = 0,
            row_false_positives = 0, row_precision = 0\<rparr>]"
    by (simp add: example_defs quality_defs)
  have v: "fresh_vector ''s1'' [assoc ''R1'' (Some ''a'') (Val 1), assoc ''R2'' (Some ''b'') (Val 1)]
             \<in> set (vectors_noisy example_no_overlap)"
    by (simp add: example_no_overlap_def)
  have l: "Some ''b'' \<in> label ` set [assoc ''R1'' (Some ''a'') (Val 1), assoc ''R2'' (Some ''b'') (Val 1)]"
    by (simp add: assoc_def)
  have n: "\<forall>a\<in>set [assoc ''R1'' (Some ''a'') (Val 1), assoc ''R2'' (Some ''b'') (Val 1)].
      label a = Some ''b'' \<longrightarrow> record_id a \<notin> record_id ` set [assoc ''R1'' (Some ''a'') (Val 1)]"
    by (simp add: assoc_def)
  from quality_metrics_precision [OF r f] have
    p: "\<forall>row\<in>set [\<lparr>row_identifier = ''s1'', row_label_name = ''a'', row_true_positives = 1,
            row_false_positives = 0, row_precision = 1\<rparr>,
          \<lparr>row_identifier = ''s1'', row_label_name = ''b'', row_true_positives = 0,
            row_false_positives = 0, row_precision = 0\<rparr>].
      row_precision row =
              (if row_true_positives row + row_false_positives row = 0 then 0
               else real (row_true_positives row) /
                    real (row_true_positives row + row_false_positives row))"
    and z: "\<forall>v\<in>set (vectors_noisy example_no_overlap). \<forall>l.
            Some l \<in> label ` set (rows (associations v)) \<and>
            (\<forall>a\<in>set (rows (associations v)).
               label a = Some l \<longrightarrow>
               record_id a \<notin> record_id ` set (rows (associations
                 (fresh_vector ''ref'' [assoc ''R1'' (Some ''a'') (Val 1)])))) \<longrightarrow>
            \<lparr>row_identifier = identifier v, row_label_name = l, row_true_positives = 0,
             row_false_positives = 0, row_precision = 0\<rparr>
              \<in> set [\<lparr>row_identifier = ''s1'', row_label_name = ''a'', row_true_positives = 1,
                        row_false_positives = 0, row_precision = 1\<rparr>,
                      \<lparr>row_identifier = ''s1'', row_label_name = ''b'', row_true_positives = 0,
                        row_false_positives = 0, row_precision = 0\<rparr>]"
    by blast+
  from z [rule_format, OF v, of "''b''"] l n have
    m: "\<lparr>row_identifier = ''s1'', row_label_name = ''b'', row_true_positives = 0,
         row_false_positives = 0, row_precision = 0\<rparr>
     \<in> set [\<lparr>row_identifier = ''s1'', row_label_name = ''a'', row_true_positives = 1,
               row_false_positives = 0, row_precision = 1\<rparr>,
             \<lparr>row_identifier = ''s1'', row_label_name = ''b'', row_true_positives = 0,
               row_false_positives = 0, row_precision = 0\<rparr>]"
    by (simp add: fresh_vector_def)
  from p have p': "list_all (\<lambda>row. row_precision row =
              (if row_true_positives row + row_false_positives row = 0 then 0
               else real (row_true_positives row) /
                    real (row_true_positives row + row_false_positives row)))
     [\<lparr>row_identifier = ''s1'', row_label_name = ''a'', row_true_positives = 1,
            row_false_positives = 0, row_precision = 1\<rparr>,
          \<lparr>row_identifier = ''s1'', row_label_name = ''b'', row_true_positives = 0,
            row_false_positives = 0, row_precision = 0\<rparr>]"
    unfolding list_all_iff .
  have n': "list_all (\<lambda>a. record_id a \<notin> record_id ` set [assoc ''R1'' (Some ''a'') (Val 1)])
     (filter (\<lambda>a. label a = Some ''b'')
        [assoc ''R1'' (Some ''a'') (Val 1), assoc ''R2'' (Some ''b'') (Val 1)])"
    by (simp add: assoc_def)
  from r f p' l n' m show ?thesis by (intro conjI)
qed



section \<open>The missing reference vector\<close>

text \<open>
  Claim C9. \<^verbatim>\<open>quality_metrics\<close> raises the exception for the missing reference vector
  whenever \<^verbatim>\<open>vector_reference\<close> is \<^verbatim>\<open>None\<close>, and leaves the matrix as it was; with a
  reference vector it does not raise that exception.
\<close>

theorem quality_metrics_missing_reference:
  "(vector_reference m = None \<longrightarrow> quality_metrics m = (Inl MissingReferenceError, m)) \<and>
   (vector_reference m \<noteq> None \<longrightarrow> fst (quality_metrics m) \<noteq> Inl MissingReferenceError)"
  by (auto simp: quality_metrics_def Let_def)

theorem quality_metrics_missing_reference_witness:
  "vector_reference example_no_reference = None \<and>
   quality_metrics example_no_reference = (Inl MissingReferenceError, example_no_reference) \<and>
   vector_reference example_single \<noteq> None \<and>
   fst (quality_metrics example_single) \<noteq> Inl MissingReferenceError"
  using quality_metrics_missing_reference [of example_no_reference]
        quality_metrics_missing_reference [of example_single]
  by (simp add: example_no_reference_def example_single_def)

section \<open>Quantity metrics: the counters of a source\<close>

lemma map_of_keys: "map_of (map (\<lambda>l. (l, f l)) ks) l = (if l \<in> set ks then Some (f l) else None)"
  by (induction ks) auto

lemma bump_overlaps_map:
  assumes "bump_overlaps lbl (map (\<lambda>l. (l, f l)) ks) = Inr q'"
  shows "\<exists>l. lbl = Some l \<and> l \<in> set ks \<and>
             q' = map (\<lambda>l'. (l', (f(l := (f l)\<lparr>source_overlaps := source_overlaps (f l) + 1\<rparr>)) l')) ks"
  using assms
  by (auto simp: bump_overlaps_def map_of_keys dict_set_map split: option.splits if_splits)

lemma bump_conflicts_map:
  assumes "bump_conflicts lbl (map (\<lambda>l. (l, f l)) ks) = Inr q'"
  shows "\<exists>l. lbl = Some l \<and> l \<in> set ks \<and>
             q' = map (\<lambda>l'. (l', (f(l := (f l)\<lparr>source_conflicts := source_conflicts (f l) + 1\<rparr>)) l')) ks"
  using assms
  by (auto simp: bump_conflicts_def map_of_keys dict_set_map split: option.splits if_splits)

lemma record_step_shape:
  assumes "record_step df_source df_others rid (map (\<lambda>l. (l, f l)) ks) = Inr q'"
  shows "\<exists>f'. q' = map (\<lambda>l. (l, f' l)) ks \<and> step_bound df_source rid f f'"
proof -
  from assms obtain a rest where flt: "filter (\<lambda>a. record_id a = rid) df_source = a # rest"
    by (auto simp: record_step_def Let_def split: list.splits)
  then have fr: "first_row df_source rid = Some a" by (simp add: first_row_def)
  let ?lu = "unique (map label (filter (\<lambda>a. record_id a = rid) df_others))"
  let ?q = "map (\<lambda>l. (l, f l)) ks"
  obtain q1 where q1: "(if label a \<in> set ?lu then bump_overlaps (label a) ?q else Inr ?q) = Inr q1"
    and rest: "(if length ?lu > 1 then bump_conflicts (label a) q1
               else case ?lu of [] \<Rightarrow> Inl IndexError
                    | l0 # _ \<Rightarrow> if l0 \<noteq> label a then bump_conflicts (label a) q1 else Inr q1) = Inr q'"
    using assms flt by (auto simp: record_step_def Let_def split: sum.splits)
  have "\<exists>f1. q1 = map (\<lambda>l. (l, f1 l)) ks \<and>
          (\<forall>l. record_coverage (f1 l) = record_coverage (f l) \<and>
               source_conflicts (f1 l) = source_conflicts (f l) \<and>
               source_overlaps (f1 l) \<le> source_overlaps (f l) + (if label a = Some l then 1 else 0))"
  proof (cases "label a \<in> set ?lu")
    case True
    with q1 have "bump_overlaps (label a) ?q = Inr q1" by simp
    from bump_overlaps_map [OF this] obtain l where "label a = Some l"
      "q1 = map (\<lambda>l'. (l', (f(l := (f l)\<lparr>source_overlaps := source_overlaps (f l) + 1\<rparr>)) l')) ks"
      by blast
    then show ?thesis by (intro exI [of _ "f(l := (f l)\<lparr>source_overlaps := source_overlaps (f l) + 1\<rparr>)"]) auto
  next
    case False
    with q1 have "q1 = ?q" by simp
    then show ?thesis by (intro exI [of _ f]) auto
  qed
  then obtain f1 where f1: "q1 = map (\<lambda>l. (l, f1 l)) ks"
    and b1: "\<And>l. record_coverage (f1 l) = record_coverage (f l) \<and>
               source_conflicts (f1 l) = source_conflicts (f l) \<and>
               source_overlaps (f1 l) \<le> source_overlaps (f l) + (if label a = Some l then 1 else 0)"
    by blast
  have "q' = q1 \<or> bump_conflicts (label a) q1 = Inr q'"
    using rest by (auto split: if_splits list.splits)
  then have "\<exists>f'. q' = map (\<lambda>l. (l, f' l)) ks \<and>
          (\<forall>l. record_coverage (f' l) = record_coverage (f1 l) \<and>
               source_overlaps (f' l) = source_overlaps (f1 l) \<and>
               source_conflicts (f' l) \<le> source_conflicts (f1 l) + (if label a = Some l then 1 else 0))"
  proof
    assume "q' = q1"
    then show ?thesis using f1 by (intro exI [of _ f1]) auto
  next
    assume "bump_conflicts (label a) q1 = Inr q'"
    from bump_conflicts_map [OF this [unfolded f1]] obtain l where "label a = Some l"
      "q' = map (\<lambda>l'. (l', (f1(l := (f1 l)\<lparr>source_conflicts := source_conflicts (f1 l) + 1\<rparr>)) l')) ks"
      by blast
    then show ?thesis
      by (intro exI [of _ "f1(l := (f1 l)\<lparr>source_conflicts := source_conflicts (f1 l) + 1\<rparr>)"]) auto
  qed
  then obtain f' where f': "q' = map (\<lambda>l. (l, f' l)) ks"
    and b2: "\<And>l. record_coverage (f' l) = record_coverage (f1 l) \<and>
               source_overlaps (f' l) = source_overlaps (f1 l) \<and>
               source_conflicts (f' l) \<le> source_conflicts (f1 l) + (if label a = Some l then 1 else 0)"
    by blast
  have "step_bound df_source rid f f'"
    unfolding step_bound_def using b1 b2 fr by auto
  with f' show ?thesis by blast
qed

lemma fold_record_step_shape:
  assumes "fold_err (record_step df_source df_others) rids (map (\<lambda>l. (l, f l)) ks) = Inr q"
  shows "\<exists>f'. q = map (\<lambda>l. (l, f' l)) ks \<and>
           (\<forall>l. record_coverage (f' l) = record_coverage (f l) \<and>
                source_overlaps (f' l) \<le> source_overlaps (f l) + first_count df_source rids l \<and>
                source_conflicts (f' l) \<le> source_conflicts (f l) + first_count df_source rids l)"
  using assms
proof (induction rids arbitrary: f)
  case Nil
  then show ?case by (intro exI [of _ f]) (auto simp: first_count_def)
next
  case (Cons rid rids)
  from Cons.prems obtain q1 where
    s1: "record_step df_source df_others rid (map (\<lambda>l. (l, f l)) ks) = Inr q1" and
    s2: "fold_err (record_step df_source df_others) rids q1 = Inr q"
    by (auto split: sum.splits)
  from record_step_shape [OF s1] obtain f1 where
    f1: "q1 = map (\<lambda>l. (l, f1 l)) ks" and b1: "step_bound df_source rid f f1" by blast
  from Cons.IH [OF s2 [unfolded f1]] obtain f' where
    f': "q = map (\<lambda>l. (l, f' l)) ks" and
    b2: "\<And>l. record_coverage (f' l) = record_coverage (f1 l) \<and>
                source_overlaps (f' l) \<le> source_overlaps (f1 l) + first_count df_source rids l \<and>
                source_conflicts (f' l) \<le> source_conflicts (f1 l) + first_count df_source rids l"
    by blast
  have "\<And>l. record_coverage (f' l) = record_coverage (f l) \<and>
                source_overlaps (f' l) \<le> source_overlaps (f l) + first_count df_source (rid # rids) l \<and>
                source_conflicts (f' l) \<le> source_conflicts (f l) + first_count df_source (rid # rids) l"
  proof -
    fix l
    from b1 have c: "record_coverage (f1 l) = record_coverage (f l)"
      and o: "source_overlaps (f1 l) \<le> source_overlaps (f l) +
             (if \<exists>a. first_row df_source rid = Some a \<and> label a = Some l then 1 else 0)"
      and k: "source_conflicts (f1 l) \<le> source_conflicts (f l) +
             (if \<exists>a. first_row df_source rid = Some a \<and> label a = Some l then 1 else 0)"
      unfolding step_bound_def by blast+
    have fc: "first_count df_source (rid # rids) l =
          (if \<exists>a. first_row df_source rid = Some a \<and> label a = Some l then 1 else 0) +
          first_count df_source rids l"
      by (simp add: first_count_def)
    show "record_coverage (f' l) = record_coverage (f l) \<and>
                source_overlaps (f' l) \<le> source_overlaps (f l) + first_count df_source (rid # rids) l \<and>
                source_conflicts (f' l) \<le> source_conflicts (f l) + first_count df_source (rid # rids) l"
      using b2 [of l] c o k unfolding fc by linarith
  qed
  with f' show ?case by blast
qed

lemma first_count_le:
  assumes "distinct rids"
  shows "first_count df_source rids l \<le> length (filter (\<lambda>a. label a = Some l) df_source)"
proof -
  let ?P = "\<lambda>rid. \<exists>a. first_row df_source rid = Some a \<and> label a = Some l"
  let ?A = "set (filter (\<lambda>a. label a = Some l) df_source)"
  have "first_count df_source rids l = card {rid \<in> set rids. ?P rid}"
    using assms by (simp add: first_count_def distinct_length_filter Int_def conj_commute)
  also have "\<dots> \<le> card (record_id ` ?A)"
  proof (rule card_mono)
    show "finite (record_id ` ?A)" by simp
    show "{rid \<in> set rids. ?P rid} \<subseteq> record_id ` ?A"
    proof
      fix rid assume "rid \<in> {rid \<in> set rids. ?P rid}"
      then obtain a where a: "first_row df_source rid = Some a" "label a = Some l" by blast
      then obtain rest where "filter (\<lambda>a. record_id a = rid) df_source = a # rest"
        by (auto simp: first_row_def split: list.splits)
      then have "a \<in> set (filter (\<lambda>a. record_id a = rid) df_source)" by simp
      then have "a \<in> set df_source" "record_id a = rid" by auto
      with a show "rid \<in> record_id ` ?A" by auto
    qed
  qed
  also have "\<dots> \<le> card ?A" by (rule card_image_le) simp
  also have "\<dots> \<le> length (filter (\<lambda>a. label a = Some l) df_source)" by (rule card_length)
  finally show ?thesis .
qed

lemma source_quantity_bounds:
  assumes "source_quantity dfc s = Inr q" and "(l, c) \<in> set q"
  shows "source_overlaps c \<le> record_coverage c \<and> source_conflicts c \<le> record_coverage c"
proof -
  let ?S = "map fst (filter (\<lambda>(a, src). src = s) dfc)"
  let ?O = "map fst (filter (\<lambda>(a, src). src \<noteq> s \<and> record_id a \<in> set (unique (map record_id ?S))) dfc)"
  let ?ks = "unique (dropna (map label ?S))"
  let ?f0 = "\<lambda>l. \<lparr>record_coverage = length (filter (\<lambda>a. label a = Some l) ?S),
                  source_overlaps = 0, source_conflicts = 0\<rparr>"
  let ?rids = "group_keys (map record_id ?O)"
  have "fold_err (record_step ?S ?O) ?rids (map (\<lambda>l. (l, ?f0 l)) ?ks) = Inr q"
    using assms(1) unfolding source_quantity_def Let_def .
  from fold_record_step_shape [OF this] obtain f' where
    q: "q = map (\<lambda>l. (l, f' l)) ?ks" and
    b: "\<And>l. record_coverage (f' l) = record_coverage (?f0 l) \<and>
                source_overlaps (f' l) \<le> source_overlaps (?f0 l) + first_count ?S ?rids l \<and>
                source_conflicts (f' l) \<le> source_conflicts (?f0 l) + first_count ?S ?rids l"
    by blast
  from assms(2) q have c: "c = f' l" by auto
  have "first_count ?S ?rids l \<le> length (filter (\<lambda>a. label a = Some l) ?S)"
    by (rule first_count_le) simp
  with b [of l] show ?thesis unfolding c by simp
qed

section \<open>Quantity metrics: the loop over the sources\<close>

lemma write_quantities_shape:
  "\<exists>S e. S \<subseteq> set srcs \<and> (\<forall>s\<in>S. \<exists>q. source_quantity dfc s = Inr q) \<and>
         (e = None \<longrightarrow> S = set srcs) \<and>
         (\<forall>e'. e = Some e' \<longrightarrow> (\<exists>s\<in>set srcs. source_quantity dfc s = Inl e')) \<and>
         ((\<exists>s\<in>set srcs. \<exists>e'. source_quantity dfc s = Inl e') \<longrightarrow> e \<noteq> None) \<and>
         (\<forall>vs. write_quantities dfc srcs vs = (e, map (put_quantity dfc S) vs))"
proof (induction srcs)
  case Nil
  show ?case
    by (intro exI [of _ "{}"] exI [of _ None]) (simp add: put_quantity_def)
next
  case (Cons s srcs)
  show ?case
  proof (cases "source_quantity dfc s")
    case (Inl e0)
    then show ?thesis
      by (intro exI [of _ "{}"] exI [of _ "Some e0"]) (simp add: put_quantity_def)
  next
    case (Inr q)
    from Cons.IH obtain S e where
      S: "S \<subseteq> set srcs" "\<forall>s\<in>S. \<exists>q. source_quantity dfc s = Inr q" "e = None \<longrightarrow> S = set srcs"
         "\<forall>e'. e = Some e' \<longrightarrow> (\<exists>s\<in>set srcs. source_quantity dfc s = Inl e')"
         "(\<exists>s\<in>set srcs. \<exists>e'. source_quantity dfc s = Inl e') \<longrightarrow> e \<noteq> None" and
      w: "\<And>vs. write_quantities dfc srcs vs = (e, map (put_quantity dfc S) vs)"
      by blast
    have pt: "put_quantity dfc S (if identifier v = s then v\<lparr>quantity := q\<rparr> else v) =
              put_quantity dfc (insert s S) v" for v
      using Inr by (simp add: put_quantity_def written_quantity_def)
    have "\<forall>vs. write_quantities dfc (s # srcs) vs = (e, map (put_quantity dfc (insert s S)) vs)"
      using Inr by (simp add: w pt comp_def)
    moreover have "insert s S \<subseteq> set (s # srcs)" using S(1) by auto
    moreover have "\<forall>s'\<in>insert s S. \<exists>q. source_quantity dfc s' = Inr q" using S(2) Inr by auto
    moreover have "e = None \<longrightarrow> insert s S = set (s # srcs)" using S(3) by auto
    moreover have "\<forall>e'. e = Some e' \<longrightarrow> (\<exists>s\<in>set (s # srcs). source_quantity dfc s = Inl e')"
      using S(4) by auto
    moreover have "(\<exists>s'\<in>set (s # srcs). \<exists>e'. source_quantity dfc s' = Inl e') \<longrightarrow> e \<noteq> None"
      using S(5) Inr by auto
    ultimately show ?thesis by blast
  qed
qed

lemma df_concat_put_quantity [simp]: "df_concat (map (put_quantity dfc S) vs) = df_concat vs"
proof -
  have "(\<lambda>vector. map (\<lambda>a. (a, identifier vector)) (rows (associations vector))) \<circ> put_quantity dfc S =
        (\<lambda>vector. map (\<lambda>a. (a, identifier vector)) (rows (associations vector)))"
    by (rule ext) (simp add: put_quantity_def)
  then show ?thesis by (simp add: df_concat_def)
qed

lemma put_quantity_idem: "put_quantity dfc S \<circ> put_quantity dfc S = put_quantity dfc S"
  by (rule ext) (simp add: put_quantity_def)

lemma quantity_metrics_twice: "quantity_metrics (snd (quantity_metrics m)) = quantity_metrics m"
proof (cases "vectors_noisy m = []")
  case True
  then show ?thesis by (simp add: quantity_metrics_def)
next
  case False
  let ?dfc = "df_concat (vectors_noisy m)"
  from write_quantities_shape [of "group_keys (map snd ?dfc)" ?dfc] obtain S e where
    w: "\<And>vs. write_quantities ?dfc (group_keys (map snd ?dfc)) vs = (e, map (put_quantity ?dfc S) vs)"
    by blast
  let ?m' = "m\<lparr>vectors_noisy := map (put_quantity ?dfc S) (vectors_noisy m)\<rparr>"
  have r1: "quantity_metrics m = ((case e of Some e' \<Rightarrow> Inl e' | None \<Rightarrow>
               Inr (quantity_statistics (map (put_quantity ?dfc S) (vectors_noisy m)))), ?m')"
    using False by (simp add: quantity_metrics_def Let_def w split: option.splits)
  have r2: "quantity_metrics ?m' = ((case e of Some e' \<Rightarrow> Inl e' | None \<Rightarrow>
               Inr (quantity_statistics (map (put_quantity ?dfc S) (vectors_noisy m)))), ?m')"
    using False by (simp add: quantity_metrics_def Let_def w put_quantity_idem split: option.splits)
  show ?thesis by (simp add: r1 r2)
qed

text \<open>
  Claim C6. After \<^verbatim>\<open>quantity_metrics\<close> completes, every entry of the \<^verbatim>\<open>quantity\<close> map of
  every noisy vector has \<^verbatim>\<open>source_overlaps\<close> and \<^verbatim>\<open>source_conflicts\<close> at most
  \<^verbatim>\<open>record_coverage\<close>. The call does not write the map of an empty vector, so the maps
  the empty vectors had before are taken to satisfy the bound (an empty map does).
\<close>

theorem quantity_metrics_bounds:
  assumes "quantity_metrics m = (Inr tbl, m')"
    and "\<forall>v\<in>set (vectors_noisy m). is_empty v \<longrightarrow> (\<forall>(l, c)\<in>set (quantity v). within_coverage c)"
  shows "\<forall>v\<in>set (vectors_noisy m'). \<forall>(l, c)\<in>set (quantity v). within_coverage c"
proof -
  let ?dfc = "df_concat (vectors_noisy m)"
  let ?srcs = "group_keys (map snd ?dfc)"
  from assms(1) have ne: "vectors_noisy m \<noteq> []"
    by (auto simp: quantity_metrics_def)
  from write_quantities_shape [of ?srcs ?dfc] obtain S e where
    S: "\<forall>s\<in>S. \<exists>q. source_quantity ?dfc s = Inr q" "e = None \<longrightarrow> S = set ?srcs" and
    w: "\<And>vs. write_quantities ?dfc ?srcs vs = (e, map (put_quantity ?dfc S) vs)"
    by blast
  from assms(1) ne have e: "e = None" and m': "m' = m\<lparr>vectors_noisy := map (put_quantity ?dfc S) (vectors_noisy m)\<rparr>"
    by (auto simp: quantity_metrics_def Let_def w split: option.splits)
  from e S(2) have Seq: "S = snd ` set ?dfc" by simp
  show ?thesis
  proof (intro ballI)
    fix v' x
    assume v': "v' \<in> set (vectors_noisy m')" and x: "x \<in> set (quantity v')"
    from v' m' obtain v where v: "v \<in> set (vectors_noisy m)" "v' = put_quantity ?dfc S v" by auto
    obtain l c where lc: "x = (l, c)" by (cases x)
    have "within_coverage c"
    proof (cases "identifier v \<in> S")
      case True
      with S(1) obtain q where q: "source_quantity ?dfc (identifier v) = Inr q" by blast
      with True v(2) have "quantity v' = q" by (simp add: put_quantity_def written_quantity_def)
      with x lc have "(l, c) \<in> set q" by simp
      from source_quantity_bounds [OF q this] show ?thesis by (simp add: within_coverage_def)
    next
      case False
      have "is_empty v"
      proof (rule ccontr)
        assume "\<not> is_empty v"
        then obtain a where "a \<in> set (rows (associations v))"
          by (cases "rows (associations v)") (auto simp: is_empty_def)
        with v(1) have "(a, identifier v) \<in> set ?dfc" by (auto simp: df_concat_def)
        then have "identifier v \<in> S" unfolding Seq by force
        with False show False by simp
      qed
      moreover from False v(2) have "quantity v' = quantity v" by (simp add: put_quantity_def)
      ultimately show ?thesis using assms(2) v(1) x lc by fastforce
    qed
    then show "case x of (l, c) \<Rightarrow> within_coverage c" by (simp add: lc)
  qed
qed

theorem quantity_metrics_bounds_witness:
  "fst (quantity_metrics example_two_sources) =
     Inr [\<lparr>qrow_identifier = ''s1'', qrow_label_name = ''a'', qrow_record_coverage = 1,
            qrow_source_conflicts = 1, qrow_source_overlaps = 0\<rparr>,
          \<lparr>qrow_identifier = ''s2'', qrow_label_name = ''b'', qrow_record_coverage = 1,
            qrow_source_conflicts = 1, qrow_source_overlaps = 0\<rparr>] \<and>
   list_all (\<lambda>v. \<not> is_empty v) (vectors_noisy example_two_sources) \<and>
   list_all (\<lambda>v. list_all (\<lambda>(l, c). within_coverage c) (quantity v))
     (vectors_noisy (snd (quantity_metrics example_two_sources)))"
proof -
  have r: "quantity_metrics example_two_sources =
    (Inr [\<lparr>qrow_identifier = ''s1'', qrow_label_name = ''a'', qrow_record_coverage = 1,
            qrow_source_conflicts = 1, qrow_source_overlaps = 0\<rparr>,
          \<lparr>qrow_identifier = ''s2'', qrow_label_name = ''b'', qrow_record_coverage = 1,
            qrow_source_conflicts = 1, qrow_source_overlaps = 0\<rparr>],
     snd (quantity_metrics example_two_sources))"
    by (simp add: example_defs quantity_defs)
  have e: "\<forall>v\<in>set (vectors_noisy example_two_sources).
      is_empty v \<longrightarrow> (\<forall>(l, c)\<in>set (quantity v). within_coverage c)"
    by (simp add: example_defs quantity_defs)
  have f: "fst (quantity_metrics example_two_sources) =
     Inr [\<lparr>qrow_identifier = ''s1'', qrow_label_name = ''a'', qrow_record_coverage = 1,
            qrow_source_conflicts = 1, qrow_source_overlaps = 0\<rparr>,
          \<lparr>qrow_identifier = ''s2'', qrow_label_name = ''b'', qrow_record_coverage = 1,
            qrow_source_conflicts = 1, qrow_source_overlaps = 0\<rparr>]"
    by (subst r) (rule fst_conv)
  have n: "list_all (\<lambda>v. \<not> is_empty v) (vectors_noisy example_two_sources)"
    by (simp add: example_defs quantity_defs)
  from quantity_metrics_bounds [OF r e]
  have b: "list_all (\<lambda>v. list_all (\<lambda>(l, c). within_coverage c) (quantity v))
     (vectors_noisy (snd (quantity_metrics example_two_sources)))"
    unfolding list_all_iff .
  from f n b show ?thesis by (intro conjI)
qed

section \<open>Recomputing the metrics\<close>

text \<open>
  Claim C7. A second call of \<^verbatim>\<open>quality_metrics\<close> right after the first returns the same
  table, raises the same exception if the first raised, and leaves the matrix as the first
  call left it; the same holds for \<^verbatim>\<open>quantity_metrics\<close>.
\<close>

theorem metrics_recomputed:
  "quality_metrics (snd (quality_metrics m)) = quality_metrics m \<and>
   quantity_metrics (snd (quantity_metrics m)) = quantity_metrics m"
proof
  show "quality_metrics (snd (quality_metrics m)) = quality_metrics m"
    by (cases "vector_reference m") (simp_all add: quality_metrics_def Let_def write_quality_idem_comp)
  show "quantity_metrics (snd (quantity_metrics m)) = quantity_metrics m"
    by (rule quantity_metrics_twice)
qed


section \<open>Quantity metrics: missing labels\<close>

lemma unique_eq_Nil [simp]: "unique xs = [] \<longleftrightarrow> xs = []"
  by (simp add: unique_def)

lemma bump_overlaps_None [simp]: "bump_overlaps None q = Inl KeyError"
  by (simp add: bump_overlaps_def)

lemma bump_conflicts_None [simp]: "bump_conflicts None q = Inl KeyError"
  by (simp add: bump_conflicts_def)

lemma bump_overlaps_error: "bump_overlaps lbl q = Inl e \<Longrightarrow> e = KeyError"
  by (auto simp: bump_overlaps_def split: option.splits)

lemma bump_conflicts_error: "bump_conflicts lbl q = Inl e \<Longrightarrow> e = KeyError"
  by (auto simp: bump_conflicts_def split: option.splits)

lemma first_row_Some: "first_row df rid = Some a \<longleftrightarrow> (\<exists>rest. filter (\<lambda>a. record_id a = rid) df = a # rest)"
  by (auto simp: first_row_def split: list.splits)

lemma first_row_in: "first_row df rid = Some a \<Longrightarrow> a \<in> set df \<and> record_id a = rid"
proof -
  assume "first_row df rid = Some a"
  then obtain rest where "filter (\<lambda>a. record_id a = rid) df = a # rest"
    by (auto simp: first_row_Some)
  then have "a \<in> set (filter (\<lambda>a. record_id a = rid) df)" by simp
  then show ?thesis by simp
qed

lemma first_row_exists: "rid \<in> record_id ` set df \<Longrightarrow> \<exists>a. first_row df rid = Some a"
proof -
  assume "rid \<in> record_id ` set df"
  then have "filter (\<lambda>a. record_id a = rid) df \<noteq> []"
    by (auto simp: filter_empty_conv)
  then show ?thesis by (cases "filter (\<lambda>a. record_id a = rid) df") (auto simp: first_row_def)
qed

lemma record_step_unfold:
  assumes "filter (\<lambda>a. record_id a = rid) df_source = a # rest"
    and "unique (map label (filter (\<lambda>a. record_id a = rid) df_others)) = l0 # lrest"
  shows "record_step df_source df_others rid q =
     (case (if label a \<in> set (l0 # lrest) then bump_overlaps (label a) q else Inr q) of
        Inl e \<Rightarrow> Inl e
      | Inr q1 \<Rightarrow> (if lrest \<noteq> [] \<or> l0 \<noteq> label a then bump_conflicts (label a) q1 else Inr q1))"
  unfolding record_step_def Let_def assms
  by (cases lrest) (simp_all split: sum.splits)

lemma labels_unique_Cons:
  assumes "rid \<in> record_id ` set df_others"
  shows "\<exists>l0 lrest. unique (map label (filter (\<lambda>a. record_id a = rid) df_others)) = l0 # lrest"
proof -
  from assms have "filter (\<lambda>a. record_id a = rid) df_others \<noteq> []"
    by (auto simp: filter_empty_conv)
  then have "unique (map label (filter (\<lambda>a. record_id a = rid) df_others)) \<noteq> []" by simp
  then show ?thesis
    by (cases "unique (map label (filter (\<lambda>a. record_id a = rid) df_others))") blast+
qed

lemma record_step_null:
  assumes "first_row df_source rid = Some a" and "label a = None"
    and "rid \<in> record_id ` set df_others"
  shows "record_step df_source df_others rid q = Inl KeyError"
proof -
  from assms(1) obtain rest where flt: "filter (\<lambda>a. record_id a = rid) df_source = a # rest"
    by (auto simp: first_row_Some)
  from labels_unique_Cons [OF assms(3)] obtain l0 lrest where
    lu: "unique (map label (filter (\<lambda>a. record_id a = rid) df_others)) = l0 # lrest" by blast
  show ?thesis
  proof (cases "None \<in> set (l0 # lrest)")
    case True
    then show ?thesis
      unfolding record_step_unfold [OF flt lu] assms(2) by simp
  next
    case False
    show ?thesis
      unfolding record_step_unfold [OF flt lu] assms(2) using False by (cases l0) simp_all
  qed
qed

lemma record_step_error:
  assumes "rid \<in> record_id ` set df_source" and "rid \<in> record_id ` set df_others"
    and "record_step df_source df_others rid q = Inl e"
  shows "e = KeyError"
proof -
  from first_row_exists [OF assms(1)] obtain a rest where
    flt: "filter (\<lambda>a. record_id a = rid) df_source = a # rest"
    by (auto simp: first_row_Some)
  from labels_unique_Cons [OF assms(2)] obtain l0 lrest where
    lu: "unique (map label (filter (\<lambda>a. record_id a = rid) df_others)) = l0 # lrest" by blast
  let ?r1 = "if label a \<in> set (l0 # lrest) then bump_overlaps (label a) q else Inr q"
  show ?thesis
  proof (cases ?r1)
    case (Inl e1)
    then have "bump_overlaps (label a) q = Inl e1" by (simp split: if_splits)
    then have "e1 = KeyError" by (rule bump_overlaps_error)
    moreover from assms(3) Inl have "e = e1"
      unfolding record_step_unfold [OF flt lu] by simp
    ultimately show ?thesis by simp
  next
    case (Inr q1)
    with assms(3) have "bump_conflicts (label a) q1 = Inl e"
      unfolding record_step_unfold [OF flt lu] by (simp split: if_splits)
    then show ?thesis by (rule bump_conflicts_error)
  qed
qed

lemma bump_overlaps_ok:
  "l \<in> set ks \<Longrightarrow> \<exists>q'. bump_overlaps (Some l) (map (\<lambda>l. (l, f l)) ks) = Inr q'"
  by (simp add: bump_overlaps_def map_of_keys)

lemma bump_conflicts_ok:
  "l \<in> set ks \<Longrightarrow> \<exists>q'. bump_conflicts (Some l) (map (\<lambda>l. (l, f l)) ks) = Inr q'"
  by (simp add: bump_conflicts_def map_of_keys)

lemma record_step_ok:
  assumes "first_row df_source rid = Some a" and "label a = Some l"
    and "l \<in> set ks" and "rid \<in> record_id ` set df_others"
  shows "\<exists>q'. record_step df_source df_others rid (map (\<lambda>l. (l, f l)) ks) = Inr q'"
proof -
  from assms(1) obtain rest where flt: "filter (\<lambda>a. record_id a = rid) df_source = a # rest"
    by (auto simp: first_row_Some)
  from labels_unique_Cons [OF assms(4)] obtain l0 lrest where
    lu: "unique (map label (filter (\<lambda>a. record_id a = rid) df_others)) = l0 # lrest" by blast
  let ?q = "map (\<lambda>l. (l, f l)) ks"
  let ?r1 = "if Some l \<in> set (l0 # lrest) then bump_overlaps (Some l) ?q else Inr ?q"
  from bump_overlaps_ok [OF assms(3), of f] obtain q1 where q1: "?r1 = Inr q1"
    by (cases "Some l \<in> set (l0 # lrest)") auto
  have "\<exists>f1. q1 = map (\<lambda>l. (l, f1 l)) ks"
  proof (cases "Some l \<in> set (l0 # lrest)")
    case True
    with q1 have "bump_overlaps (Some l) ?q = Inr q1" by simp
    from bump_overlaps_map [OF this] show ?thesis by blast
  next
    case False
    with q1 have "q1 = ?q" by simp
    then show ?thesis by blast
  qed
  then obtain f1 where f1: "q1 = map (\<lambda>l. (l, f1 l)) ks" by blast
  from bump_conflicts_ok [OF assms(3), of f1] f1 obtain q2 where
    q2: "bump_conflicts (Some l) q1 = Inr q2" by auto
  have "record_step df_source df_others rid ?q =
        (if lrest \<noteq> [] \<or> l0 \<noteq> Some l then Inr q2 else Inr q1)"
    unfolding record_step_unfold [OF flt lu] assms(2) q1 by (simp add: q2)
  then show ?thesis by (cases "lrest \<noteq> [] \<or> l0 \<noteq> Some l") simp_all
qed

lemma fold_err_error:
  assumes "\<And>r q e. r \<in> set rids \<Longrightarrow> step r q = Inl e \<Longrightarrow> e = KeyError"
    and "fold_err step rids q = Inl e"
  shows "e = KeyError"
  using assms
proof (induction rids arbitrary: q)
  case Nil
  then show ?case by simp
next
  case (Cons r rids)
  show ?case
  proof (cases "step r q")
    case (Inl e')
    with Cons.prems(2) have "e' = e" by simp
    with Inl Cons.prems(1) [of r q e] show ?thesis by simp
  next
    case (Inr q')
    with Cons.prems(2) have f: "fold_err step rids q' = Inl e" by simp
    have "\<And>r q e. r \<in> set rids \<Longrightarrow> step r q = Inl e \<Longrightarrow> e = KeyError"
      using Cons.prems(1) by (meson list.set_intros(2))
    from Cons.IH [OF this f] show ?thesis .
  qed
qed

lemma fold_err_fails:
  assumes "r \<in> set rids" and "\<And>q. \<exists>e. step r q = Inl e"
  shows "\<exists>e. fold_err step rids q = Inl e"
  using assms(1)
proof (induction rids arbitrary: q)
  case Nil
  then show ?case by simp
next
  case (Cons x rids)
  show ?case
  proof (cases "step x q")
    case (Inl e)
    then show ?thesis by simp
  next
    case (Inr q')
    show ?thesis
    proof (cases "x = r")
      case True
      with assms(2) [of q] Inr show ?thesis by simp
    next
      case False
      with Cons.prems have "r \<in> set rids" by simp
      from Cons.IH [OF this, of q'] Inr show ?thesis by simp
    qed
  qed
qed

lemma fold_record_step_ok:
  assumes "\<And>r f. r \<in> set rids \<Longrightarrow>
            \<exists>q'. record_step df_source df_others r (map (\<lambda>l. (l, f l)) ks) = Inr q'"
  shows "\<exists>q. fold_err (record_step df_source df_others) rids (map (\<lambda>l. (l, f l)) ks) = Inr q"
  using assms
proof (induction rids arbitrary: f)
  case Nil
  then show ?case by simp
next
  case (Cons r rids)
  from Cons.prems [of r f] obtain q1 where
    q1: "record_step df_source df_others r (map (\<lambda>l. (l, f l)) ks) = Inr q1" by auto
  from record_step_shape [OF q1] obtain f1 where f1: "q1 = map (\<lambda>l. (l, f1 l)) ks" by blast
  have "\<exists>q. fold_err (record_step df_source df_others) rids (map (\<lambda>l. (l, f1 l)) ks) = Inr q"
    by (rule Cons.IH) (simp add: Cons.prems)
  with q1 f1 show ?case by simp
qed


lemma source_quantity_unfold:
  "source_quantity (df_concat vs) s =
     fold_err (record_step (source_rows vs s)
                 (map fst (filter (\<lambda>(a, src). src \<noteq> s \<and> record_id a \<in> set (map record_id (source_rows vs s))) (df_concat vs))))
       (group_keys (shared_records vs s))
       (map (\<lambda>l. (l, \<lparr>record_coverage = length (filter (\<lambda>a. label a = Some l) (source_rows vs s)),
                      source_overlaps = 0, source_conflicts = 0\<rparr>))
            (unique (dropna (map label (source_rows vs s)))))"
proof -
  have "map record_id (map fst (filter (\<lambda>(a, src). src \<noteq> s \<and> record_id a \<in> set (map record_id (source_rows vs s))) (df_concat vs)))
        = shared_records vs s"
    by (simp add: shared_records_def comp_def case_prod_unfold)
  then show ?thesis
    unfolding source_quantity_def Let_def source_rows_def [symmetric]
    by (simp only: set_unique)
qed

lemma shared_records_others:
  "set (shared_records vs s) =
     record_id ` set (map fst (filter (\<lambda>(a, src). src \<noteq> s \<and> record_id a \<in> set (map record_id (source_rows vs s))) (df_concat vs)))"
proof -
  have "shared_records vs s =
        map record_id (map fst (filter (\<lambda>(a, src). src \<noteq> s \<and> record_id a \<in> set (map record_id (source_rows vs s))) (df_concat vs)))"
    by (simp add: shared_records_def comp_def case_prod_unfold)
  then show ?thesis by (simp only: set_map)
qed

lemma shared_records_own: "r \<in> set (shared_records vs s) \<Longrightarrow> r \<in> record_id ` set (source_rows vs s)"
  by (auto simp: shared_records_def)

lemma source_quantity_error:
  assumes "source_quantity (df_concat vs) s = Inl e"
  shows "e = KeyError"
proof (rule fold_err_error [OF _ assms [unfolded source_quantity_unfold]])
  fix r q e
  assume r: "r \<in> set (group_keys (shared_records vs s))"
    and st: "record_step (source_rows vs s)
        (map fst (filter (\<lambda>(a, src). src \<noteq> s \<and> record_id a \<in> set (map record_id (source_rows vs s))) (df_concat vs)))
        r q = Inl e"
  from r have r': "r \<in> set (shared_records vs s)" by simp
  show "e = KeyError"
    by (rule record_step_error [OF shared_records_own [OF r'] _ st])
       (use r' shared_records_others in blast)
qed

lemma source_quantity_null:
  assumes "r \<in> set (shared_records vs s)" and "first_row (source_rows vs s) r = Some a"
    and "label a = None"
  shows "source_quantity (df_concat vs) s = Inl KeyError"
proof -
  have "\<exists>e. source_quantity (df_concat vs) s = Inl e"
    unfolding source_quantity_unfold
  proof (rule fold_err_fails [of r])
    show "r \<in> set (group_keys (shared_records vs s))" using assms(1) by simp
    fix q
    have "r \<in> record_id ` set (map fst (filter (\<lambda>(a, src). src \<noteq> s \<and> record_id a \<in> set (map record_id (source_rows vs s))) (df_concat vs)))"
      using assms(1) shared_records_others by blast
    from record_step_null [OF assms(2,3) this]
    show "\<exists>e. record_step (source_rows vs s)
        (map fst (filter (\<lambda>(a, src). src \<noteq> s \<and> record_id a \<in> set (map record_id (source_rows vs s))) (df_concat vs)))
        r q = Inl e" by blast
  qed
  then show ?thesis using source_quantity_error by blast
qed

lemma source_quantity_ok:
  assumes "\<forall>r\<in>set (shared_records vs s). \<forall>a. first_row (source_rows vs s) r = Some a \<longrightarrow> label a \<noteq> None"
  shows "\<exists>q. source_quantity (df_concat vs) s = Inr q"
  unfolding source_quantity_unfold
proof (rule fold_record_step_ok)
  fix r f
  assume "r \<in> set (group_keys (shared_records vs s))"
  then have r: "r \<in> set (shared_records vs s)" by simp
  from first_row_exists [OF shared_records_own [OF r]] obtain a where
    a: "first_row (source_rows vs s) r = Some a" by blast
  with assms r obtain l where l: "label a = Some l" by auto
  from first_row_in [OF a] have "label a \<in> label ` set (source_rows vs s)" by (intro imageI) simp
  with l have "l \<in> set (unique (dropna (map label (source_rows vs s))))" by simp
  moreover have "r \<in> record_id ` set (map fst (filter (\<lambda>(a, src). src \<noteq> s \<and> record_id a \<in> set (map record_id (source_rows vs s))) (df_concat vs)))"
    using r shared_records_others by blast
  ultimately show "\<exists>q'. record_step (source_rows vs s)
        (map fst (filter (\<lambda>(a, src). src \<noteq> s \<and> record_id a \<in> set (map record_id (source_rows vs s))) (df_concat vs)))
        r (map (\<lambda>l. (l, f l)) (unique (dropna (map label (source_rows vs s))))) = Inr q'"
    by (rule record_step_ok [OF a l])
qed

text \<open>
  Claim C10. When the first row a source holds for a record that another source names
  too carries a missing label, \<^verbatim>\<open>quantity_metrics\<close> raises \<^verbatim>\<open>KeyError\<close>; when no such first
  row carries a missing label, it raises no \<^verbatim>\<open>KeyError\<close>, and returns its table whenever
  there is a noisy vector at all.
\<close>

theorem quantity_metrics_null_label:
  "((\<exists>s r a. r \<in> set (shared_records (vectors_noisy m) s) \<and>
             first_row (source_rows (vectors_noisy m) s) r = Some a \<and> label a = None)
      \<longrightarrow> fst (quantity_metrics m) = Inl KeyError) \<and>
   ((\<forall>s. \<forall>r\<in>set (shared_records (vectors_noisy m) s).
        \<forall>a. first_row (source_rows (vectors_noisy m) s) r = Some a \<longrightarrow> label a \<noteq> None)
      \<longrightarrow> fst (quantity_metrics m) \<noteq> Inl KeyError \<and>
          (vectors_noisy m \<noteq> [] \<longrightarrow> (\<exists>tbl. fst (quantity_metrics m) = Inr tbl)))"
proof (intro conjI impI)
  let ?vs = "vectors_noisy m"
  let ?dfc = "df_concat ?vs"
  let ?srcs = "group_keys (map snd ?dfc)"
  from write_quantities_shape [of ?srcs ?dfc] obtain S e where
    S: "\<forall>e'. e = Some e' \<longrightarrow> (\<exists>s\<in>set ?srcs. source_quantity ?dfc s = Inl e')"
       "(\<exists>s\<in>set ?srcs. \<exists>e'. source_quantity ?dfc s = Inl e') \<longrightarrow> e \<noteq> None" and
    w: "\<And>vs. write_quantities ?dfc ?srcs vs = (e, map (put_quantity ?dfc S) vs)"
    by blast
  have res: "?vs \<noteq> [] \<Longrightarrow> fst (quantity_metrics m) =
        (case e of Some e' \<Rightarrow> Inl e' | None \<Rightarrow> Inr (quantity_statistics (map (put_quantity ?dfc S) ?vs)))"
    by (simp add: quantity_metrics_def Let_def w split: option.splits)
  {
    assume "\<exists>s r a. r \<in> set (shared_records ?vs s) \<and>
             first_row (source_rows ?vs s) r = Some a \<and> label a = None"
    then obtain s r a where h: "r \<in> set (shared_records ?vs s)"
      "first_row (source_rows ?vs s) r = Some a" "label a = None" by blast
    from source_quantity_null [OF h] have f: "source_quantity ?dfc s = Inl KeyError" .
    from first_row_in [OF h(2)] have "a \<in> set (source_rows ?vs s)" by simp
    then have "(a, s) \<in> set ?dfc" by (auto simp: source_rows_def)
    then have s: "s \<in> set ?srcs" by force
    then have ne: "?vs \<noteq> []" using \<open>(a, s) \<in> set ?dfc\<close> by (auto simp: df_concat_def)
    from S(2) f s obtain e' where e': "e = Some e'" by blast
    with S(1) obtain s' where "source_quantity ?dfc s' = Inl e'" by blast
    from source_quantity_error [OF this] e' res [OF ne]
    show "fst (quantity_metrics m) = Inl KeyError" by simp
  }
  {
    assume h: "\<forall>s. \<forall>r\<in>set (shared_records ?vs s).
        \<forall>a. first_row (source_rows ?vs s) r = Some a \<longrightarrow> label a \<noteq> None"
    have ok: "\<And>s. \<exists>q. source_quantity ?dfc s = Inr q"
      using source_quantity_ok h by blast
    have e: "e = None"
    proof (cases e)
      case (Some e')
      with S(1) obtain s where "source_quantity ?dfc s = Inl e'" by blast
      with ok [of s] show ?thesis by simp
    qed simp
    show "fst (quantity_metrics m) \<noteq> Inl KeyError"
      using res e by (cases "?vs = []") (simp_all add: quantity_metrics_def)
    {
      assume "?vs \<noteq> []"
      from res [OF this] e show "\<exists>tbl. fst (quantity_metrics m) = Inr tbl" by simp
    }
  }
qed

theorem quantity_metrics_null_label_witness:
  "''R1'' \<in> set (shared_records (vectors_noisy example_null_label) ''s1'') \<and>
   first_row (source_rows (vectors_noisy example_null_label) ''s1'') ''R1'' = Some (assoc ''R1'' None (Val 1)) \<and>
   label (assoc ''R1'' None (Val 1)) = None \<and>
   fst (quantity_metrics example_null_label) = Inl KeyError \<and>
   list_all (\<lambda>v. list_all (\<lambda>a. label a \<noteq> None) (rows (associations v)))
     (vectors_noisy example_two_sources) \<and>
   vectors_noisy example_two_sources \<noteq> [] \<and>
   fst (quantity_metrics example_two_sources) \<noteq> Inl KeyError \<and>
   (\<exists>tbl. fst (quantity_metrics example_two_sources) = Inr tbl)"
proof -
  have a: "''R1'' \<in> set (shared_records (vectors_noisy example_null_label) ''s1'')"
    by (simp add: example_defs quantity_defs)
  have b: "first_row (source_rows (vectors_noisy example_null_label) ''s1'') ''R1'' = Some (assoc ''R1'' None (Val 1))"
    by (simp add: example_defs quantity_defs)
  have c: "label (assoc ''R1'' None (Val 1)) = None" by (simp add: assoc_def)
  have d: "\<forall>s. \<forall>r\<in>set (shared_records (vectors_noisy example_two_sources) s).
        \<forall>a. first_row (source_rows (vectors_noisy example_two_sources) s) r = Some a \<longrightarrow> label a \<noteq> None"
    by (auto simp: example_defs quantity_defs split: if_splits)
  have e: "vectors_noisy example_two_sources \<noteq> []" by (simp add: example_defs)
  from a b c have h: "\<exists>s r a. r \<in> set (shared_records (vectors_noisy example_null_label) s) \<and>
             first_row (source_rows (vectors_noisy example_null_label) s) r = Some a \<and> label a = None"
    by blast
  from quantity_metrics_null_label [of example_null_label] h
  have 1: "fst (quantity_metrics example_null_label) = Inl KeyError" by blast
  from quantity_metrics_null_label [of example_two_sources] d e
  have 2: "fst (quantity_metrics example_two_sources) \<noteq> Inl KeyError \<and>
   (\<exists>tbl. fst (quantity_metrics example_two_sources) = Inr tbl)" by blast
  have d': "list_all (\<lambda>v. list_all (\<lambda>a. label a \<noteq> None) (rows (associations v)))
     (vectors_noisy example_two_sources)"
    by (simp add: example_defs)
  from 2 have 3: "fst (quantity_metrics example_two_sources) \<noteq> Inl KeyError"
    and 4: "\<exists>tbl. fst (quantity_metrics example_two_sources) = Inr tbl" by blast+
  from a b c 1 d' e 3 4 show ?thesis by (intro conjI)
qed


section \<open>Weak supervision: the output series\<close>

lemma map_err_all2:
  "map_err f xs = Inr ys \<Longrightarrow> list_all2 (\<lambda>x y. f x = Inr y) xs ys"
proof (induction xs arbitrary: ys)
  case Nil
  then show ?case by simp
next
  case (Cons x xs)
  then show ?case by (auto split: sum.splits)
qed

lemma map_err_length: "map_err f xs = Inr ys \<Longrightarrow> length ys = length xs"
  by (drule map_err_all2) (simp add: list_all2_lengthD)

lemma weakly_supervise_out:
  assumes "fst (weakly_supervise m) = Inr out"
  shows "map_err (\<lambda>(r, row). case ensemble row of Inl e \<Rightarrow> Inl e | Inr res \<Rightarrow> Inr (r, res))
           (vote_rows m) = Inr out"
proof -
  obtain res m1 where q: "quality_metrics m = (res, m1)" by (cases "quality_metrics m")
  from assms q obtain stats_df where r: "res = Inr stats_df"
    by (cases res) (auto simp: weakly_supervise_def)
  from assms q r have ne: "stats_df \<noteq> []"
    by (auto simp: weakly_supervise_def split: if_splits)
  obtain vs t where v: "vote_table stats_df m1 = (vs, t)" by (cases "vote_table stats_df m1")
  from assms q r ne v obtain cnlm_df where t: "t = Inr cnlm_df"
    by (cases t) (auto simp: weakly_supervise_def)
  have "vote_rows m = voted_rows cnlm_df"
    by (simp add: vote_rows_def q r v t)
  with assms q r ne v t show ?thesis
    by (auto simp: weakly_supervise_def split: sum.splits)
qed

lemma weakly_supervise_all2:
  assumes "fst (weakly_supervise m) = Inr out"
  shows "list_all2 (\<lambda>(r, row) (r', res). r' = r \<and> ensemble row = Inr res) (vote_rows m) out"
proof -
  from map_err_all2 [OF weakly_supervise_out [OF assms]]
  have "list_all2 (\<lambda>x y. (case x of (r, row) \<Rightarrow>
          case ensemble row of Inl e \<Rightarrow> Inl e | Inr res \<Rightarrow> Inr (r, res)) = Inr y) (vote_rows m) out" .
  then show ?thesis
    by (rule list_all2_mono) (auto split: sum.splits)
qed

lemma ensemble_Some:
  assumes "ensemble row = Inr (Some (l, c))"
  shows "\<exists>x. max_voter (tally row) = Inr l \<and> margin (tally row) l = Val x \<and> 0 < x \<and>
             c = sigmoid x 1 1"
  using assms
  by (auto simp: ensemble_def Let_def split: sum.splits pyfloat.splits if_splits)

lemma ensemble_None:
  assumes "max_voter (tally row) = Inr w" and "\<not> fgt (margin (tally row) w) (Val 0)"
  shows "ensemble row = Inr None"
  using assms
  by (cases "margin (tally row) w") (auto simp: ensemble_def Let_def)

lemma sigmoid_midpoint: "sigmoid x 1 1 = 1 / (1 + exp (1 - x))"
  by (simp add: sigmoid_def)

lemma logistic_bounds:
  fixes x :: real
  assumes "0 < x"
  shows "1 / 4 < 1 / (1 + exp (1 - x))" and "1 / (1 + exp (1 - x)) \<le> 1"
    and "x \<le> 1 \<Longrightarrow> 1 / (1 + exp (1 - x)) \<le> 1 / 2"
    and "1 \<le> x \<Longrightarrow> 1 / 2 \<le> 1 / (1 + exp (1 - x))"
proof -
  have p: "0 < exp (1 - x)" by simp
  have e3: "exp (1::real) \<le> 3" by (rule exp_le)
  have "exp (1 - x) < exp 1" using assms by simp
  with e3 have lt4: "1 + exp (1 - x) < 4" by linarith
  have pos: "0 < 1 + exp (1 - x)" using p by linarith
  have inv: "1 / b < 1 / a" if "0 < a" "a < b" for a b :: real
    using that by (simp add: frac_less2)
  from inv [OF pos lt4] show "1 / 4 < 1 / (1 + exp (1 - x))" .
  have "1 \<le> 1 + exp (1 - x)" using p by linarith
  then show "1 / (1 + exp (1 - x)) \<le> 1" using pos by (simp add: field_simps)
  {
    assume "x \<le> 1"
    then have "1 \<le> exp (1 - x)" by simp
    then have "2 \<le> 1 + exp (1 - x)" by linarith
    then show "1 / (1 + exp (1 - x)) \<le> 1 / 2" using pos by (simp add: field_simps)
  }
  {
    assume "1 \<le> x"
    then have "exp (1 - x) \<le> 1" by simp
    then have "1 + exp (1 - x) \<le> 2" by linarith
    then show "1 / 2 \<le> 1 / (1 + exp (1 - x))" using pos by (simp add: field_simps)
  }
qed

section \<open>The confidence of an emitted label\<close>

text \<open>
  Claim C1 says that the confidence emitted for a record is \<open>1 / (1 + exp (- margin))\<close>
  and so lies above \<open>1 / 2\<close>. In \<^verbatim>\<open>sigmoid\<close> the exponent is \<^verbatim>\<open>-c * x + k\<close> with \<^verbatim>\<open>c = 1\<close> and
  \<^verbatim>\<open>k = 1\<close>, which is \<open>1 - margin\<close>: one source that agrees with the reference gives the
  margin \<open>1\<close> and the confidence \<open>1 / 2\<close>.
\<close>

theorem weakly_supervise_confidence_counterexample:
  "fst (weakly_supervise example_single) = Inr [(''R1'', Some (''spam'', 1 / 2))] \<and>
   vote_rows example_single = [(''R1'', [(''s1'', Some (''spam'', Val 1))])] \<and>
   margin (tally [(''s1'', Some (''spam'', Val 1))]) ''spam'' = Val 1 \<and>
   (1 / 2 :: real) \<noteq> 1 / (1 + exp (- 1)) \<and>
   \<not> (1 / 2 :: real) < 1 / 2"
proof (intro conjI)
  show "fst (weakly_supervise example_single) = Inr [(''R1'', Some (''spam'', 1 / 2))]"
    by (simp add: example_defs quality_defs supervise_defs)
  show "vote_rows example_single = [(''R1'', [(''s1'', Some (''spam'', Val 1))])]"
    by (simp add: example_defs quality_defs supervise_defs)
  show "margin (tally [(''s1'', Some (''spam'', Val 1))]) ''spam'' = Val 1"
    by (simp add: supervise_defs dict_set_def)
  show "(1 / 2 :: real) \<noteq> 1 / (1 + exp (- 1))"
    by (simp add: field_simps)
  show "\<not> (1 / 2 :: real) < 1 / 2" by simp
qed

text \<open>
  Claim C1, amended. The confidence emitted for a record is \<open>1 / (1 + exp (1 - margin))\<close>
  for the positive margin of the tally of its row, the logistic function with slope \<open>1\<close>
  and midpoint \<open>1\<close>. It is above \<open>1 / 4\<close> and at most \<open>1\<close>; it is at most \<open>1 / 2\<close> when the
  margin is at most \<open>1\<close>, and at least \<open>1 / 2\<close> when the margin is at least \<open>1\<close>. The bounds are
  the ones that the rounding of the float operations keeps: the program returns \<open>1\<close> itself
  for a large margin.
\<close>

theorem weakly_supervise_confidence:
  assumes "fst (weakly_supervise m) = Inr out" and "(r, Some (l, c)) \<in> set out"
  shows "\<exists>row x. (r, row) \<in> set (vote_rows m) \<and> max_voter (tally row) = Inr l \<and>
           margin (tally row) l = Val x \<and> 0 < x \<and> c = 1 / (1 + exp (1 - x)) \<and>
           1 / 4 < c \<and> c \<le> 1 \<and> (x \<le> 1 \<longrightarrow> c \<le> 1 / 2) \<and> (1 \<le> x \<longrightarrow> 1 / 2 \<le> c)"
proof -
  note a = weakly_supervise_all2 [OF assms(1)]
  from assms(2) obtain i where i: "i < length out" "out ! i = (r, Some (l, c))"
    by (auto simp: in_set_conv_nth)
  from a i(1) have len: "i < length (vote_rows m)" by (simp add: list_all2_lengthD)
  obtain r' row where rr: "vote_rows m ! i = (r', row)" by (cases "vote_rows m ! i")
  from list_all2_nthD2 [OF a i(1)] rr i(2)
  have "r = r'" and e: "ensemble row = Inr (Some (l, c))" by auto
  with rr len have row: "(r, row) \<in> set (vote_rows m)" by (metis nth_mem)
  from ensemble_Some [OF e] obtain x where
    x: "max_voter (tally row) = Inr l" "margin (tally row) l = Val x" "0 < x" "c = sigmoid x 1 1"
    by blast
  from x(4) have c: "c = 1 / (1 + exp (1 - x))" by (simp add: sigmoid_midpoint)
  from logistic_bounds [OF x(3)]
  have b: "1 / 4 < c" "c \<le> 1" "x \<le> 1 \<longrightarrow> c \<le> 1 / 2" "1 \<le> x \<longrightarrow> 1 / 2 \<le> c"
    unfolding c by blast+
  from row x(1,2,3) c b show ?thesis by blast
qed

theorem weakly_supervise_confidence_witness:
  "fst (weakly_supervise example_single) = Inr [(''R1'', Some (''spam'', 1 / 2))] \<and>
   (''R1'', Some (''spam'', 1 / 2)) \<in> set [(''R1'', Some (''spam'', 1 / 2 :: real))] \<and>
   (\<exists>row x. (''R1'', row) \<in> set (vote_rows example_single) \<and>
      max_voter (tally row) = Inr ''spam'' \<and> margin (tally row) ''spam'' = Val x \<and> 0 < x \<and>
      (1 / 2 :: real) = 1 / (1 + exp (1 - x)) \<and> 1 / 4 < (1 / 2 :: real) \<and>
      (1 / 2 :: real) \<le> 1 \<and> (x \<le> 1 \<longrightarrow> (1 / 2 :: real) \<le> 1 / 2) \<and>
      (1 \<le> x \<longrightarrow> 1 / 2 \<le> (1 / 2 :: real)))"
proof -
  have h1: "fst (weakly_supervise example_single) = Inr [(''R1'', Some (''spam'', 1 / 2))]"
    by (simp add: example_defs quality_defs supervise_defs)
  have h2: "(''R1'', Some (''spam'', 1 / 2)) \<in> set [(''R1'', Some (''spam'', 1 / 2 :: real))]"
    by simp
  from weakly_supervise_confidence [OF h1 h2] h1 h2 show ?thesis by (intro conjI)
qed

section \<open>Records without a majority\<close>

text \<open>
  Claim C2 says that a record with votes whose margin is not positive is absent from the
  output. \<^verbatim>\<open>ensemble\<close> returns \<^verbatim>\<open>None\<close> for its row, and the series that \<^verbatim>\<open>apply\<close> builds
  holds that \<^verbatim>\<open>None\<close> under the record.
\<close>

theorem weakly_supervise_no_majority_counterexample:
  "fst (weakly_supervise example_tie) =
     Inr [(''R1'', Some (''a'', 1 / 2)), (''R2'', Some (''b'', 1 / 2)), (''R3'', None)] \<and>
   (''R3'', [(''s1'', Some (''a'', Val 1)), (''s2'', Some (''b'', Val 1))])
     \<in> set (vote_rows example_tie) \<and>
   max_voter (tally [(''s1'', Some (''a'', Val 1)), (''s2'', Some (''b'', Val 1))]) = Inr ''a'' \<and>
   margin (tally [(''s1'', Some (''a'', Val 1)), (''s2'', Some (''b'', Val 1))]) ''a'' = Val 0 \<and>
   ''R3'' \<in> fst ` set [(''R1'', Some (''a'', 1 / 2 :: real)), (''R2'', Some (''b'', 1 / 2)),
                        (''R3'', None)]"
proof (intro conjI)
  show "fst (weakly_supervise example_tie) =
     Inr [(''R1'', Some (''a'', 1 / 2)), (''R2'', Some (''b'', 1 / 2)), (''R3'', None)]"
    by (simp add: example_defs quality_defs supervise_defs)
  show "(''R3'', [(''s1'', Some (''a'', Val 1)), (''s2'', Some (''b'', Val 1))])
     \<in> set (vote_rows example_tie)"
    by (simp add: example_defs quality_defs supervise_defs)
  show "max_voter (tally [(''s1'', Some (''a'', Val 1)), (''s2'', Some (''b'', Val 1))]) = Inr ''a''"
    by (simp add: supervise_defs dict_set_def)
  show "margin (tally [(''s1'', Some (''a'', Val 1)), (''s2'', Some (''b'', Val 1))]) ''a'' = Val 0"
    by (simp add: supervise_defs dict_set_def)
  show "''R3'' \<in> fst ` set [(''R1'', Some (''a'', 1 / 2 :: real)), (''R2'', Some (''b'', 1 / 2)),
                        (''R3'', None)]"
    by simp
qed

text \<open>
  Claim C2, amended. A record with votes whose margin is not positive gets no label and no
  confidence: it is in the output, with the value \<^verbatim>\<open>None\<close>. The output has one entry for
  every record with at least one vote.
\<close>

theorem weakly_supervise_no_majority:
  assumes "fst (weakly_supervise m) = Inr out" and "(r, row) \<in> set (vote_rows m)"
    and "max_voter (tally row) = Inr w" and "\<not> fgt (margin (tally row) w) (Val 0)"
  shows "(r, None) \<in> set out \<and> map fst out = map fst (vote_rows m)"
proof
  note a = weakly_supervise_all2 [OF assms(1)]
  from assms(2) obtain i where i: "i < length (vote_rows m)" "vote_rows m ! i = (r, row)"
    by (auto simp: in_set_conv_nth)
  from a i have len: "i < length out" by (simp add: list_all2_lengthD)
  from list_all2_nthD [OF a i(1)]
  have "(case vote_rows m ! i of (r, row) \<Rightarrow> \<lambda>(r', res). r' = r \<and> ensemble row = Inr res) (out ! i)" .
  with i(2) have "fst (out ! i) = r" "ensemble row = Inr (snd (out ! i))"
    by (auto simp: case_prod_unfold)
  with ensemble_None [OF assms(3,4)] have "out ! i = (r, None)"
    by (cases "out ! i") auto
  with len show "(r, None) \<in> set out" by (metis nth_mem)
  from a have "list_all2 (\<lambda>x y. fst y = fst x) (vote_rows m) out"
    by (rule list_all2_mono) auto
  then show "map fst out = map fst (vote_rows m)"
    by (induction rule: list_all2_induct) auto
qed

theorem weakly_supervise_no_majority_witness:
  "fst (weakly_supervise example_tie) =
     Inr [(''R1'', Some (''a'', 1 / 2)), (''R2'', Some (''b'', 1 / 2)), (''R3'', None)] \<and>
   (''R3'', [(''s1'', Some (''a'', Val 1)), (''s2'', Some (''b'', Val 1))])
     \<in> set (vote_rows example_tie) \<and>
   max_voter (tally [(''s1'', Some (''a'', Val 1)), (''s2'', Some (''b'', Val 1))]) = Inr ''a'' \<and>
   \<not> fgt (margin (tally [(''s1'', Some (''a'', Val 1)), (''s2'', Some (''b'', Val 1))]) ''a'') (Val 0) \<and>
   (''R3'', None) \<in> set [(''R1'', Some (''a'', 1 / 2 :: real)), (''R2'', Some (''b'', 1 / 2)),
                          (''R3'', None)] \<and>
   map fst [(''R1'', Some (''a'', 1 / 2 :: real)), (''R2'', Some (''b'', 1 / 2)), (''R3'', None)] =
     map fst (vote_rows example_tie)"
proof -
  have h1: "fst (weakly_supervise example_tie) =
     Inr [(''R1'', Some (''a'', 1 / 2)), (''R2'', Some (''b'', 1 / 2)), (''R3'', None)]"
    by (simp add: example_defs quality_defs supervise_defs)
  have h2: "(''R3'', [(''s1'', Some (''a'', Val 1)), (''s2'', Some (''b'', Val 1))])
     \<in> set (vote_rows example_tie)"
    by (simp add: example_defs quality_defs supervise_defs)
  have h3: "max_voter (tally [(''s1'', Some (''a'', Val 1)), (''s2'', Some (''b'', Val 1))]) = Inr ''a''"
    by (simp add: supervise_defs dict_set_def)
  have h4: "\<not> fgt (margin (tally [(''s1'', Some (''a'', Val 1)), (''s2'', Some (''b'', Val 1))]) ''a'') (Val 0)"
    by (simp add: supervise_defs dict_set_def)
  from weakly_supervise_no_majority [OF h1 h2 h3 h4] h1 h2 h3 h4 show ?thesis by (intro conjI) blast+
qed

section \<open>Votes without a confidence\<close>

text \<open>
  A missing confidence is the float \<open>NaN\<close>. The product with the precision is \<open>NaN\<close>, a sum
  with a \<open>NaN\<close> term is \<open>NaN\<close>, and no comparison with \<open>NaN\<close> holds, so a row of the table
  that holds such a vote has the margin \<open>NaN\<close> and \<^verbatim>\<open>ensemble\<close> falls off its end.
\<close>

lemma map_of_dict_set:
  "map_of (dict_set k v d) k' = (if k' = k then Some v else map_of d k')"
proof (cases "k \<in> set (map fst d)")
  case True
  have "map_of (map (\<lambda>(k', v'). if k' = k then (k', v) else (k', v')) d) k' =
        (if k' = k then map_option (\<lambda>_. v) (map_of d k) else map_of d k')"
    by (induction d) auto
  moreover from True have "map_of d k \<noteq> None" by (simp add: map_of_eq_None_iff)
  ultimately show ?thesis using True by (auto simp: dict_set_def)
next
  case False
  then have "map_of d k = None" by (simp add: map_of_eq_None_iff)
  with False show ?thesis by (simp add: dict_set_def map_add_def split: option.splits)
qed

lemma fadd_NaN [simp]: "fadd x NaN = NaN" "fadd NaN x = NaN"
  by (cases x; simp)+

lemma fsub_NaN [simp]: "fsub x NaN = NaN" "fsub NaN x = NaN"
  by (cases x; simp)+

lemma fmul_NaN [simp]: "fmul x NaN = NaN" "fmul NaN x = NaN"
  by (cases x; simp)+

lemma add_vote_keeps_NaN:
  assumes "map_of voters l = Some NaN"
  shows "map_of (add_vote l' c voters) l = Some NaN"
  using assms by (cases "l = l'") (simp_all add: add_vote_def map_of_dict_set)

lemma add_vote_NaN: "map_of (add_vote l NaN voters) l = Some NaN"
  by (simp add: add_vote_def map_of_dict_set)

lemma tally_step_keeps_NaN:
  assumes "map_of voters l = Some NaN"
  shows "map_of (fold (\<lambda>(column, pair_or_empty) voters.
             case pair_or_empty of None \<Rightarrow> voters
             | Some (label_name, conf) \<Rightarrow> add_vote label_name conf voters) row voters) l = Some NaN"
  using assms
proof (induction row arbitrary: voters)
  case Nil
  then show ?case by simp
next
  case (Cons x row)
  obtain column cell where x: "x = (column, cell)" by (cases x)
  show ?case
  proof (cases cell)
    case None
    with x Cons show ?thesis by simp
  next
    case (Some p)
    obtain l' c where p: "p = (l', c)" by (cases p)
    from Cons.prems have "map_of (add_vote l' c voters) l = Some NaN"
      by (rule add_vote_keeps_NaN)
    from Cons.IH [OF this] x Some p show ?thesis by simp
  qed
qed

lemma tally_step_NaN:
  assumes "(column, Some (l, NaN)) \<in> set row"
  shows "map_of (fold (\<lambda>(column, pair_or_empty) voters.
             case pair_or_empty of None \<Rightarrow> voters
             | Some (label_name, conf) \<Rightarrow> add_vote label_name conf voters) row voters) l = Some NaN"
  using assms
proof (induction row arbitrary: voters)
  case Nil
  then show ?case by simp
next
  case (Cons x row)
  show ?case
  proof (cases "x = (column, Some (l, NaN))")
    case True
    have "map_of (add_vote l NaN voters) l = Some NaN" by (rule add_vote_NaN)
    from tally_step_keeps_NaN [OF this] True show ?thesis by simp
  next
    case False
    with Cons.prems have "(column, Some (l, NaN)) \<in> set row" by simp
    from Cons.IH [OF this] show ?thesis by simp
  qed
qed

lemma tally_NaN:
  "(column, Some (l, NaN)) \<in> set row \<Longrightarrow> map_of (tally row) l = Some NaN"
  unfolding tally_def by (rule tally_step_NaN)

lemma fold_fadd_from_NaN: "fold (\<lambda>v acc. fadd acc v) vs NaN = NaN"
  by (induction vs) simp_all

lemma fold_fadd_NaN: "NaN \<in> set vs \<Longrightarrow> fold (\<lambda>v acc. fadd acc v) vs a = NaN"
proof (induction vs arbitrary: a)
  case Nil
  then show ?case by simp
next
  case (Cons v vs)
  show ?case
  proof (cases "v = NaN")
    case True
    then show ?thesis by (simp add: fold_fadd_from_NaN)
  next
    case False
    with Cons.prems have "NaN \<in> set vs" by simp
    from Cons.IH [OF this] show ?thesis by simp
  qed
qed

lemma sum_votes_NaN:
  assumes "map_of voters l = Some NaN"
  shows "sum_votes voters = NaN"
proof -
  from assms have "(l, NaN) \<in> set voters" by (rule map_of_SomeD)
  then have "NaN \<in> set (map snd voters)" by force
  then show ?thesis unfolding sum_votes_def by (rule fold_fadd_NaN)
qed

lemma ensemble_NaN:
  assumes "(column, Some (l, NaN)) \<in> set row"
  shows "ensemble row = Inr None"
proof -
  from tally_NaN [OF assms] have t: "map_of (tally row) l = Some NaN" .
  then have "tally row \<noteq> []" by auto
  then obtain k v rest where "tally row = (k, v) # rest"
    by (cases "tally row") auto
  then obtain w where w: "max_voter (tally row) = Inr w" by simp
  have "margin (tally row) w = NaN"
    by (simp add: margin_def Let_def sum_votes_NaN [OF t])
  with w show ?thesis by (simp add: ensemble_def Let_def)
qed

text \<open>
  Claim C3 says that an association without a confidence votes with weight 1, so that its
  weighted vote is the precision of its source for its label. In the example the
  precision is 1, the vote written for the association is \<open>NaN\<close>, and the record gets no
  label.
\<close>

theorem null_confidence_vote_counterexample:
  "fst (quality_metrics example_null_confidence) =
     Inr [\<lparr>row_identifier = ''s1'', row_label_name = ''spam'', row_true_positives = 1,
            row_false_positives = 0, row_precision = 1\<rparr>] \<and>
   map (prediction \<circ> associations) (vectors_noisy (snd (weakly_supervise example_null_confidence))) =
     [Some [(''spam'', NaN)]] \<and>
   NaN \<noteq> Val 1 \<and>
   fst (weakly_supervise example_null_confidence) = Inr [(''R1'', None)]"
proof (intro conjI)
  show "fst (quality_metrics example_null_confidence) =
     Inr [\<lparr>row_identifier = ''s1'', row_label_name = ''spam'', row_true_positives = 1,
            row_false_positives = 0, row_precision = 1\<rparr>]"
    by (simp add: example_defs quality_defs)
  show "map (prediction \<circ> associations) (vectors_noisy (snd (weakly_supervise example_null_confidence))) =
     [Some [(''spam'', NaN)]]"
    by (simp add: example_defs quality_defs supervise_defs)
  show "NaN \<noteq> Val 1" by simp
  show "fst (weakly_supervise example_null_confidence) = Inr [(''R1'', None)]"
    by (simp add: example_defs quality_defs supervise_defs)
qed

text \<open>
  Claim C3, amended. The weighted vote of an association without a confidence is itself
  missing (\<open>NaN\<close>), not the precision of the source, and a row of the table that holds
  such a vote gets no label and no confidence.
\<close>

theorem null_confidence_vote:
  assumes "confidence x = NaN" and "predict lkp ident x = Inr vote"
    and "(column, Some vote) \<in> set row"
  shows "snd vote = NaN \<and> ensemble row = Inr None"
proof -
  from assms(1,2) have "snd vote = NaN"
    by (auto simp: predict_def split: option.splits)
  moreover from this assms(3) have "(column, Some (fst vote, NaN)) \<in> set row"
    by (cases vote) simp
  then have "ensemble row = Inr None" by (rule ensemble_NaN)
  ultimately show ?thesis by simp
qed

theorem null_confidence_vote_witness:
  "confidence (assoc ''R1'' (Some ''spam'') NaN) = NaN \<and>
   predict [((''s1'', ''spam''), 1)] ''s1'' (assoc ''R1'' (Some ''spam'') NaN) = Inr (''spam'', NaN) \<and>
   (''s1'', Some (''spam'', NaN)) \<in> set [(''s1'', Some (''spam'', NaN))] \<and>
   snd (''spam'', NaN) = NaN \<and>
   ensemble [(''s1'', Some (''spam'', NaN))] = Inr None"
proof -
  have h1: "confidence (assoc ''R1'' (Some ''spam'') NaN) = NaN" by (simp add: assoc_def)
  have h2: "predict [((''s1'', ''spam''), 1)] ''s1'' (assoc ''R1'' (Some ''spam'') NaN) = Inr (''spam'', NaN)"
    by (simp add: predict_def assoc_def)
  have h3: "(''s1'', Some (''spam'', NaN)) \<in> set [(''s1'', Some (''spam'', NaN))]" by simp
  from null_confidence_vote [OF h1 h2 h3] h1 h2 h3 show ?thesis by (intro conjI) blast+
qed

section \<open>Several labels for a record from one source\<close>

text \<open>
  A source contributes one column to the table, with one cell for every record. The
  series of a source with two rows for a record has that record twice in its index, and
  the assignment of the column raises when it has to align such a series with the index
  of the table.
\<close>

text \<open>
  Claim C4 says that \<^verbatim>\<open>weakly_supervise\<close> succeeds for a source with several labels for
  a record and counts each of them as a vote in the tally of that record. In the example
  the source \<^verbatim>\<open>s1\<close> labels the record \<^verbatim>\<open>R1\<close> with \<^verbatim>\<open>a\<close> and with \<^verbatim>\<open>b\<close>. \<^verbatim>\<open>quality_metrics\<close> and
  \<^verbatim>\<open>quantity_metrics\<close> return their tables for it, and \<^verbatim>\<open>weakly_supervise\<close> raises. For
  the same vectors and an empty list of records the table takes the index of the series,
  and \<^verbatim>\<open>weakly_supervise\<close> returns two entries for \<^verbatim>\<open>R1\<close>, each from a tally of one vote.
\<close>

theorem weakly_supervise_multi_label_raises:
  "fst (quality_metrics example_multi_label) =
     Inr [\<lparr>row_identifier = ''s1'', row_label_name = ''a'', row_true_positives = 1,
            row_false_positives = 0, row_precision = 1\<rparr>,
          \<lparr>row_identifier = ''s1'', row_label_name = ''b'', row_true_positives = 0,
            row_false_positives = 1, row_precision = 0\<rparr>] \<and>
   fst (quantity_metrics example_multi_label) =
     Inr [\<lparr>qrow_identifier = ''s1'', qrow_label_name = ''a'', qrow_record_coverage = 1,
            qrow_source_conflicts = 0, qrow_source_overlaps = 0\<rparr>,
          \<lparr>qrow_identifier = ''s1'', qrow_label_name = ''b'', qrow_record_coverage = 1,
            qrow_source_conflicts = 0, qrow_source_overlaps = 0\<rparr>] \<and>
   fst (weakly_supervise example_multi_label) = Inl DuplicateAxisError \<and>
   fst (weakly_supervise (example_multi_label\<lparr>records := []\<rparr>)) =
     Inr [(''R1'', Some (''a'', 1 / 2)), (''R1'', None)]"
proof (intro conjI)
  show "fst (quality_metrics example_multi_label) =
     Inr [\<lparr>row_identifier = ''s1'', row_label_name = ''a'', row_true_positives = 1,
            row_false_positives = 0, row_precision = 1\<rparr>,
          \<lparr>row_identifier = ''s1'', row_label_name = ''b'', row_true_positives = 0,
            row_false_positives = 1, row_precision = 0\<rparr>]"
    by (simp add: example_defs quality_defs)
  show "fst (quantity_metrics example_multi_label) =
     Inr [\<lparr>qrow_identifier = ''s1'', qrow_label_name = ''a'', qrow_record_coverage = 1,
            qrow_source_conflicts = 0, qrow_source_overlaps = 0\<rparr>,
          \<lparr>qrow_identifier = ''s1'', qrow_label_name = ''b'', qrow_record_coverage = 1,
            qrow_source_conflicts = 0, qrow_source_overlaps = 0\<rparr>]"
    by (simp add: example_defs quantity_defs)
  show "fst (weakly_supervise example_multi_label) = Inl DuplicateAxisError"
    by (simp add: example_defs quality_defs supervise_defs)
  show "fst (weakly_supervise (example_multi_label\<lparr>records := []\<rparr>)) =
     Inr [(''R1'', Some (''a'', 1 / 2)), (''R1'', None)]"
    by (simp add: example_defs quality_defs supervise_defs)
qed

section \<open>What the calls write\<close>

lemma collect_predictions_frame:
  "list_all2 (\<lambda>v v'. v'\<lparr>associations := (associations v')\<lparr>prediction := prediction (associations v)\<rparr>\<rparr> = v)
     vs (fst (collect_predictions lkp vs df))"
proof (induction vs arbitrary: df)
  case Nil
  show ?case by simp
next
  case (Cons u vs)
  have refl: "list_all2 (\<lambda>v v'. v'\<lparr>associations := (associations v')\<lparr>prediction := prediction (associations v)\<rparr>\<rparr> = v) vs vs"
    by (rule list_all2_refl) simp
  show ?case
  proof (cases "length (rows (associations u)) > 0")
    case False
    with Cons.IH [of df] show ?thesis
      by (cases "collect_predictions lkp vs df") (simp add: Let_def)
  next
    case True
    show ?thesis
    proof (cases "map_err (predict lkp (identifier u)) (rows (associations u))")
      case (Inl e)
      with True refl show ?thesis by (simp add: Let_def)
    next
      case (Inr preds)
      show ?thesis
      proof (cases "set_column (identifier u) (zip (map record_id (rows (associations u))) preds) df")
        case (Inl e)
        with True Inr refl show ?thesis by (simp add: Let_def)
      next
        case df': (Inr df')
        with True Inr Cons.IH [of df'] show ?thesis
          by (cases "collect_predictions lkp vs df'") (simp add: Let_def)
      qed
    qed
  qed
qed

lemma write_quality_frame: "(write_quality reference v)\<lparr>quality := quality v\<rparr> = v"
  by (simp add: write_quality_def)

lemma put_quantity_frame: "(put_quantity dfc S v)\<lparr>quantity := quantity v\<rparr> = v"
  by (simp add: put_quantity_def)

lemma quality_metrics_frame:
  "\<exists>vs'. snd (quality_metrics m) = m\<lparr>vectors_noisy := vs'\<rparr> \<and>
         list_all2 (\<lambda>v v'. v'\<lparr>quality := quality v\<rparr> = v) (vectors_noisy m) vs'"
proof (cases "vector_reference m")
  case None
  have "list_all2 (\<lambda>v v'. v'\<lparr>quality := quality v\<rparr> = v) (vectors_noisy m) (vectors_noisy m)"
    by (rule list_all2_refl) simp
  with None show ?thesis
    by (intro exI [of _ "vectors_noisy m"]) (simp add: quality_metrics_def)
next
  case (Some reference)
  have "list_all2 (\<lambda>v v'. v'\<lparr>quality := quality v\<rparr> = v) (vectors_noisy m)
          (map (write_quality reference) (vectors_noisy m))"
    by (simp add: list_all2_map2 write_quality_frame list_all2_refl)
  with Some show ?thesis
    by (intro exI [of _ "map (write_quality reference) (vectors_noisy m)"])
       (simp add: quality_metrics_def Let_def)
qed

lemma quantity_metrics_frame:
  "\<exists>vs'. snd (quantity_metrics m) = m\<lparr>vectors_noisy := vs'\<rparr> \<and>
         list_all2 (\<lambda>v v'. v'\<lparr>quantity := quantity v\<rparr> = v) (vectors_noisy m) vs'"
proof (cases "vectors_noisy m = []")
  case True
  then show ?thesis
    by (intro exI [of _ "[]"]) (simp add: quantity_metrics_def)
next
  case False
  let ?dfc = "df_concat (vectors_noisy m)"
  from write_quantities_shape [of "group_keys (map snd ?dfc)" ?dfc] obtain S e where
    w: "write_quantities ?dfc (group_keys (map snd ?dfc)) (vectors_noisy m) =
          (e, map (put_quantity ?dfc S) (vectors_noisy m))"
    by blast
  have "list_all2 (\<lambda>v v'. v'\<lparr>quantity := quantity v\<rparr> = v) (vectors_noisy m)
          (map (put_quantity ?dfc S) (vectors_noisy m))"
    by (simp add: list_all2_map2 put_quantity_frame list_all2_refl)
  moreover have "snd (quantity_metrics m) = m\<lparr>vectors_noisy := map (put_quantity ?dfc S) (vectors_noisy m)\<rparr>"
    using False w by (cases e) (simp_all add: quantity_metrics_def Let_def)
  ultimately show ?thesis by blast
qed

lemma vote_table_frame:
  "list_all2 (\<lambda>v v'. v'\<lparr>associations := (associations v')\<lparr>prediction := prediction (associations v)\<rparr>\<rparr> = v)
     (vectors_noisy m) (fst (vote_table stats m))"
proof (cases "stats_lkp stats")
  case (Inl e)
  have "list_all2 (\<lambda>v v'. v'\<lparr>associations := (associations v')\<lparr>prediction := prediction (associations v)\<rparr>\<rparr> = v)
     (vectors_noisy m) (vectors_noisy m)"
    by (rule list_all2_refl) simp
  with Inl show ?thesis by (simp add: vote_table_def)
next
  case (Inr lkp)
  with collect_predictions_frame [of "vectors_noisy m" lkp] show ?thesis
    by (simp add: vote_table_def)
qed

lemma frame_compose:
  assumes "b\<lparr>quality := quality a\<rparr> = a"
    and "c\<lparr>associations := (associations c)\<lparr>prediction := prediction (associations b)\<rparr>\<rparr> = b"
  shows "c\<lparr>quality := quality a,
           associations := (associations c)\<lparr>prediction := prediction (associations a)\<rparr>\<rparr> = a"
proof -
  from assms(1) have "associations (b\<lparr>quality := quality a\<rparr>) = associations a" by simp
  then have ab: "associations b = associations a" by simp
  have "c\<lparr>quality := quality a,
           associations := (associations c)\<lparr>prediction := prediction (associations a)\<rparr>\<rparr> =
        (c\<lparr>associations := (associations c)\<lparr>prediction := prediction (associations b)\<rparr>\<rparr>)\<lparr>quality := quality a\<rparr>"
    by (simp add: ab)
  also have "\<dots> = a" by (simp only: assms)
  finally show ?thesis .
qed

lemma frame_quality_only:
  assumes "b\<lparr>quality := quality a\<rparr> = a"
  shows "b\<lparr>quality := quality a,
           associations := (associations b)\<lparr>prediction := prediction (associations a)\<rparr>\<rparr> = a"
proof (rule frame_compose [OF assms])
  from assms have "associations (b\<lparr>quality := quality a\<rparr>) = associations a" by simp
  then have "associations b = associations a" by simp
  then show "b\<lparr>associations := (associations b)\<lparr>prediction := prediction (associations b)\<rparr>\<rparr> = b"
    by simp
qed

lemma weakly_supervise_frame:
  "\<exists>vs'. snd (weakly_supervise m) = m\<lparr>vectors_noisy := vs'\<rparr> \<and>
         list_all2 (\<lambda>v v'. v'\<lparr>quality := quality v,
                              associations := (associations v')\<lparr>prediction := prediction (associations v)\<rparr>\<rparr> = v)
           (vectors_noisy m) vs'"
proof -
  let ?Q = "\<lambda>v v'. v'\<lparr>quality := quality v\<rparr> = v"
  let ?P = "\<lambda>(v :: sourcevector) v'. v'\<lparr>associations := (associations v')\<lparr>prediction := prediction (associations v)\<rparr>\<rparr> = v"
  let ?R = "\<lambda>(v :: sourcevector) v'. v'\<lparr>quality := quality v,
                  associations := (associations v')\<lparr>prediction := prediction (associations v)\<rparr>\<rparr> = v"
  from quality_metrics_frame [of m] obtain vs1 where
    s: "snd (quality_metrics m) = m\<lparr>vectors_noisy := vs1\<rparr>" and q: "list_all2 ?Q (vectors_noisy m) vs1"
    by blast
  let ?m1 = "m\<lparr>vectors_noisy := vs1\<rparr>"
  have QR: "list_all2 ?R (vectors_noisy m) vs1"
    by (rule list_all2_mono [OF q]) (rule frame_quality_only)
  have comp: "list_all2 ?R (vectors_noisy m) (fst (vote_table stats ?m1))" for stats
  proof -
    from vote_table_frame [of ?m1 stats] have p: "list_all2 ?P vs1 (fst (vote_table stats ?m1))" by simp
    show ?thesis
      by (rule list_all2_trans [OF _ q p]) (rule frame_compose)
  qed
  obtain res where qm: "quality_metrics m = (res, ?m1)"
    using s by (cases "quality_metrics m") simp
  show ?thesis
  proof (cases res)
    case (Inl e)
    with qm QR show ?thesis
      by (intro exI [of _ vs1]) (simp add: weakly_supervise_def)
  next
    case (Inr stats)
    show ?thesis
    proof (cases "length stats = 0")
      case True
      with qm Inr QR show ?thesis
        by (intro exI [of _ vs1]) (simp add: weakly_supervise_def)
    next
      case False
      obtain vs2 tbl where vt: "vote_table stats ?m1 = (vs2, tbl)"
        by (cases "vote_table stats ?m1")
      with comp [of stats] have r: "list_all2 ?R (vectors_noisy m) vs2" by simp
      have "snd (weakly_supervise m) = m\<lparr>vectors_noisy := vs2\<rparr>"
        using qm Inr False vt
        by (simp add: weakly_supervise_def split: sum.splits)
      with r show ?thesis by blast
    qed
  qed
qed

text \<open>
  Claim C5 says that the three calls write nothing of a vector but its \<^verbatim>\<open>quality\<close> and
  \<^verbatim>\<open>quantity\<close>, and that the associations of every noisy vector are the same before
  and after \<^verbatim>\<open>weakly_supervise\<close>. In the example the table of the vector has no column
  \<^verbatim>\<open>prediction\<close> before the call and has one after it.
\<close>

theorem metrics_frame_counterexample:
  "map associations (vectors_noisy (snd (weakly_supervise example_single))) =
     [\<lparr>rows = [assoc ''R1'' (Some ''spam'') (Val 1)], prediction = Some [(''spam'', Val 1)]\<rparr>] \<and>
   map associations (vectors_noisy example_single) =
     [\<lparr>rows = [assoc ''R1'' (Some ''spam'') (Val 1)], prediction = None\<rparr>] \<and>
   map associations (vectors_noisy (snd (weakly_supervise example_single))) \<noteq>
     map associations (vectors_noisy example_single)"
  by (simp add: example_defs quality_defs supervise_defs)

text \<open>
  Claim C5, amended. The calls leave the reference vector and the records as they are, and
  keep the number and the order of the noisy vectors. \<^verbatim>\<open>quality_metrics\<close> writes nothing of
  a noisy vector but its \<^verbatim>\<open>quality\<close>, \<^verbatim>\<open>quantity_metrics\<close> nothing but its \<^verbatim>\<open>quantity\<close>, and
  \<^verbatim>\<open>weakly_supervise\<close> nothing but its \<^verbatim>\<open>quality\<close> and the column \<^verbatim>\<open>prediction\<close> of its
  associations: the rows of the associations stay as they are.
\<close>

theorem metrics_frame:
  "(\<exists>vs'. snd (quality_metrics m) = m\<lparr>vectors_noisy := vs'\<rparr> \<and>
          list_all2 (\<lambda>v v'. v'\<lparr>quality := quality v\<rparr> = v) (vectors_noisy m) vs') \<and>
   (\<exists>vs'. snd (quantity_metrics m) = m\<lparr>vectors_noisy := vs'\<rparr> \<and>
          list_all2 (\<lambda>v v'. v'\<lparr>quantity := quantity v\<rparr> = v) (vectors_noisy m) vs') \<and>
   (\<exists>vs'. snd (weakly_supervise m) = m\<lparr>vectors_noisy := vs'\<rparr> \<and>
          list_all2 (\<lambda>v v'. v'\<lparr>quality := quality v,
                               associations := (associations v')\<lparr>prediction := prediction (associations v)\<rparr>\<rparr> = v)
            (vectors_noisy m) vs')"
  by (intro conjI quality_metrics_frame quantity_metrics_frame weakly_supervise_frame)

end
